theory Spec2Isabelle
  imports Main
begin

section \<open>Python values the program computes with\<close>

text \<open>
  A Python \<open>str\<close> is a \<open>string\<close> whose characters are the code points below 256. The two
  exceptions the conversion can raise are the constructors of \<open>error\<close>; a computation that
  may raise returns \<open>error + 'a\<close>, and \<open>and_then\<close> runs the next statement unless the
  previous one raised.
\<close>

datatype error = ValueError | OverflowError

definition and_then :: "error + 'a \<Rightarrow> ('a \<Rightarrow> error + 'b) \<Rightarrow> error + 'b" where
  "and_then r f = (case r of Inl e \<Rightarrow> Inl e | Inr v \<Rightarrow> f v)"

subsection \<open>\<open>str.strip\<close>\<close>

text \<open>The characters \<open>str.isspace\<close> accepts, among the code points below 256.\<close>

definition py_isspace :: "char \<Rightarrow> bool" where
  "py_isspace c = (of_char c \<in> {9, 10, 11, 12, 13, 28, 29, 30, 31, 32, 133, 160 :: nat})"

definition py_strip :: "string \<Rightarrow> string" where
  "py_strip s = rev (dropWhile py_isspace (rev (dropWhile py_isspace s)))"

subsection \<open>\<open>int(str)\<close>\<close>

text \<open>
  \<open>int\<close> and \<open>float\<close> skip surrounding white space, but not the separators 0x1C to 0x1F
  that \<open>str.strip\<close> removes (characters no parsed XML document contains). An underscore
  may stand between two digits
  (\<open>underscores_ok\<close> walks the string with the previous character, as CPython does).
  \<open>int\<close> refuses more than \<open>int_max_str_digits\<close> digits (CPython's default limit).
\<close>

definition num_isspace :: "char \<Rightarrow> bool" where
  "num_isspace c = (of_char c \<in> {9, 10, 11, 12, 13, 32, 133, 160 :: nat})"

definition num_strip :: "string \<Rightarrow> string" where
  "num_strip s = rev (dropWhile num_isspace (rev (dropWhile num_isspace s)))"

definition is_digit :: "char \<Rightarrow> bool" where
  "is_digit c = (48 \<le> (of_char c :: nat) \<and> (of_char c :: nat) \<le> 57)"

definition digits_value :: "string \<Rightarrow> nat" where
  "digits_value ds = foldl (\<lambda>acc c. 10 * acc + (of_char c - 48)) 0 ds"

fun underscores_ok :: "char \<Rightarrow> string \<Rightarrow> bool" where
  "underscores_ok prev [] = (prev \<noteq> CHR ''_'')"
| "underscores_ok prev (c # cs) =
     ((if c = CHR ''_'' then is_digit prev else prev \<noteq> CHR ''_'' \<or> is_digit c)
      \<and> underscores_ok c cs)"

definition split_sign :: "string \<Rightarrow> bool \<times> string" where
  "split_sign s =
     (case s of
        [] \<Rightarrow> (False, [])
      | c # cs \<Rightarrow>
          if c = CHR ''-'' then (True, cs)
          else if c = CHR ''+'' then (False, cs)
          else (False, s))"

definition int_max_str_digits :: nat where
  "int_max_str_digits = 4300"

definition py_int :: "string \<Rightarrow> error + int" where
  "py_int s =
     (let (neg, body) = split_sign (num_strip s);
          ds = filter (\<lambda>c. c \<noteq> CHR ''_'') body
      in if body \<noteq> [] \<and> list_all is_digit ds \<and> underscores_ok (CHR 0x00) body
            \<and> length ds \<le> int_max_str_digits
         then Inr (if neg then - int (digits_value ds) else int (digits_value ds))
         else Inl ValueError)"

subsection \<open>\<open>float(str)\<close>, \<open>round\<close> and \<open>int\<close> of a float\<close>

text \<open>
  A float is a finite double, an infinity or a NaN. \<open>Finite m k\<close> is the double of value
  \<open>m * 2 ^ k\<close> (the sign of zero changes nothing the program computes).
  \<open>to_double neg n d\<close> rounds the fraction \<open>n / d\<close>, negated when \<open>neg\<close>, to the nearest
  double, ties to the even significand: 53 significant bits, least exponent \<open>-1022\<close>
  (below it the last place stays \<open>2 ^ -1074\<close>), and a result of \<open>2 ^ 1024\<close> or more is an
  infinity.
\<close>

datatype pyfloat = Finite int int | PosInf | NegInf | NaN

fun bit_length :: "nat \<Rightarrow> nat" where
  "bit_length n = (if n = 0 then 0 else Suc (bit_length (n div 2)))"

declare bit_length.simps [simp del]

text \<open>The integer part of the binary logarithm of \<open>n / d\<close>, for positive \<open>n\<close> and \<open>d\<close>.\<close>

definition floor_log2 :: "nat \<Rightarrow> nat \<Rightarrow> int" where
  "floor_log2 n d =
     (let k = int (bit_length n) - int (bit_length d)
      in if (if 0 \<le> k then d * 2 ^ nat k \<le> n else d \<le> n * 2 ^ nat (- k)) then k
         else k - 1)"

text \<open>\<open>n / d\<close> rounded to the nearest integer, ties to even, for a positive \<open>d\<close>.\<close>

definition round_half_even :: "int \<Rightarrow> int \<Rightarrow> int" where
  "round_half_even n d =
     (let q = n div d; r = n mod d
      in if 2 * r < d then q
         else if d < 2 * r then q + 1
         else if even q then q else q + 1)"

definition to_double :: "bool \<Rightarrow> nat \<Rightarrow> nat \<Rightarrow> pyfloat" where
  "to_double neg n d =
     (if n = 0 then Finite 0 0
      else
        let e = floor_log2 n d
        in if 1024 \<le> e then (if neg then NegInf else PosInf)
           else
             let k = max e (- 1022) - 52;
                 m = (if 0 \<le> k then round_half_even (int n) (int d * 2 ^ nat k)
                      else round_half_even (int n * 2 ^ nat (- k)) (int d))
             in if k = 971 \<and> 2 ^ 53 \<le> m then (if neg then NegInf else PosInf)
                else Finite (if neg then - m else m) k)"

text \<open>
  The text of a float: an optional sign, then \<open>inf\<close>, \<open>infinity\<close> or \<open>nan\<close> in any case, or
  digits with an optional point and an optional exponent; at least one digit before or
  after the point. \<open>parse_decimal\<close> gives the digits as a number and the power of ten that
  scales it.
\<close>

definition lower_ascii :: "char \<Rightarrow> char" where
  "lower_ascii c =
     (if 65 \<le> (of_char c :: nat) \<and> (of_char c :: nat) \<le> 90
      then char_of (of_char c + 32 :: nat) else c)"

definition parse_exponent :: "string \<Rightarrow> int option" where
  "parse_exponent s =
     (case s of
        [] \<Rightarrow> Some 0
      | c # cs \<Rightarrow>
          if c = CHR ''e'' \<or> c = CHR ''E'' then
            (let (neg, ds) = split_sign cs
             in if ds \<noteq> [] \<and> list_all is_digit ds
                then Some (if neg then - int (digits_value ds) else int (digits_value ds))
                else None)
          else None)"

definition parse_decimal :: "string \<Rightarrow> (nat \<times> int) option" where
  "parse_decimal s =
     (let ip = takeWhile is_digit s;
          r1 = dropWhile is_digit s;
          (fp, r2) = (case r1 of
                        [] \<Rightarrow> ([], r1)
                      | c # cs \<Rightarrow>
                          if c = CHR ''.'' then (takeWhile is_digit cs, dropWhile is_digit cs)
                          else ([], r1))
      in if ip = [] \<and> fp = [] then None
         else (case parse_exponent r2 of
                 None \<Rightarrow> None
               | Some ex \<Rightarrow> Some (digits_value (ip @ fp), ex - int (length fp))))"

definition py_float :: "string \<Rightarrow> error + pyfloat" where
  "py_float s =
     (if CHR ''_'' \<in> set s \<and> \<not> underscores_ok (CHR 0x00) s then Inl ValueError
      else
        let (neg, body) = split_sign (num_strip (filter (\<lambda>c. c \<noteq> CHR ''_'') s));
            word = map lower_ascii body
        in if word = ''inf'' \<or> word = ''infinity'' then Inr (if neg then NegInf else PosInf)
           else if word = ''nan'' then Inr NaN
           else (case parse_decimal body of
                   None \<Rightarrow> Inl ValueError
                 | Some (m, e) \<Rightarrow>
                     Inr (if 0 \<le> e then to_double neg (m * 10 ^ nat e) 1
                          else to_double neg m (10 ^ nat (- e)))))"

text \<open>
  \<open>round(x)\<close> is the nearest integer, ties to even; \<open>int(x)\<close> cuts the fraction off. On a
  NaN both raise \<open>ValueError\<close>, on an infinity \<open>OverflowError\<close>.
\<close>

fun py_round :: "pyfloat \<Rightarrow> error + int" where
  "py_round (Finite m k) =
     Inr (if 0 \<le> k then m * 2 ^ nat k else round_half_even m (2 ^ nat (- k)))"
| "py_round NaN = Inl ValueError"
| "py_round PosInf = Inl OverflowError"
| "py_round NegInf = Inl OverflowError"

fun int_of_float :: "pyfloat \<Rightarrow> error + int" where
  "int_of_float (Finite m k) =
     Inr (if 0 \<le> k then m * 2 ^ nat k
          else if 0 \<le> m then m div 2 ^ nat (- k)
          else - ((- m) div 2 ^ nat (- k)))"
| "int_of_float NaN = Inl ValueError"
| "int_of_float PosInf = Inl OverflowError"
| "int_of_float NegInf = Inl OverflowError"

text \<open>\<open>str(i)\<close> of an integer.\<close>

fun str_nat :: "nat \<Rightarrow> string" where
  "str_nat n =
     (if n < 10 then [char_of (48 + n)] else str_nat (n div 10) @ [char_of (48 + n mod 10)])"

declare str_nat.simps [simp del]

definition py_str :: "int \<Rightarrow> string" where
  "py_str i = (if i < 0 then CHR ''-'' # str_nat (nat (- i)) else str_nat (nat i))"

section \<open>The document tree\<close>

text \<open>
  An \<open>xml.etree.ElementTree.Element\<close>: tag name, attribute dictionary (insertion ordered,
  as an association list), direct text (\<open>None\<close> when the element has none) and the ordered
  children. The \<open>tail\<close> text is never read or written by the program and is left out.
  A tree built by \<open>ET.parse\<close> shares no node between two places, so the tree is a value.
\<close>

datatype element =
  Element (tag: string) (attrib: "(string \<times> string) list") (etext: "string option")
    (children: "element list")

text \<open>\<open>element.get(key)\<close>: the attribute's value, \<open>None\<close> when the key is absent.\<close>

definition elem_get :: "element \<Rightarrow> string \<Rightarrow> string option" where
  "elem_get el key = map_of (attrib el) key"

text \<open>
  \<open>element.iter(name)\<close>: the element itself when its tag is \<open>name\<close>, then the matches
  below each child, in document order.
\<close>

fun iter :: "string \<Rightarrow> element \<Rightarrow> element list" where
  "iter name (Element t a x cs) =
     (if t = name then [Element t a x cs] else []) @ concat (map (iter name) cs)"

text \<open>
  The paths the program uses, as the steps \<open>ElementPath\<close> compiles them to:
  \<open>'a'\<close> is \<open>[Child a]\<close>, \<open>'a/b'\<close> is \<open>[Child a, Child b]\<close>, \<open>'.//a'\<close> is
  \<open>[Self, Descendant a]\<close> and \<open>'.//a/*'\<close> is \<open>[Self, Descendant a, Star]\<close>. Each step maps
  the list of elements selected so far to the next one. A tag is compared as a whole
  string, namespace prefix included. \<open>Descendant\<close> leaves out the element it starts from,
  which \<open>iter\<close> could only give first.
\<close>

datatype step = Child string | Star | Self | Descendant string

fun select :: "step \<Rightarrow> element list \<Rightarrow> element list" where
  "select (Child name) result =
     concat (map (\<lambda>elem. filter (\<lambda>e. tag e = name) (children elem)) result)"
| "select Star result = concat (map children result)"
| "select Self result = result"
| "select (Descendant name) result =
     concat (map (\<lambda>elem. concat (map (iter name) (children elem))) result)"

definition findall :: "element \<Rightarrow> step list \<Rightarrow> element list" where
  "findall el path = foldl (\<lambda>result s. select s result) [el] path"

definition find :: "element \<Rightarrow> step list \<Rightarrow> element option" where
  "find el path = (case findall el path of [] \<Rightarrow> None | e # _ \<Rightarrow> Some e)"

text \<open>
  \<open>element.findtext(path, default)\<close>: the text of the first match, the empty string when
  that element has no text, and \<open>default\<close> when nothing matches.
\<close>

definition findtext :: "element \<Rightarrow> step list \<Rightarrow> string option \<Rightarrow> string option" where
  "findtext el path dflt =
     (case find el path of
        None \<Rightarrow> dflt
      | Some e \<Rightarrow> Some (case etext e of None \<Rightarrow> [] | Some t \<Rightarrow> t))"

text \<open>The truth value of an optional string: \<open>None\<close> and the empty string are false.\<close>

definition truthy :: "string option \<Rightarrow> bool" where
  "truthy s = (case s of None \<Rightarrow> False | Some t \<Rightarrow> t \<noteq> [])"

section \<open>Configuration\<close>

definition STRIP_ATTRS :: "string set" where
  "STRIP_ATTRS = {''color'', ''default-x'', ''default-y'', ''font-family'', ''font-size'',
     ''font-weight'', ''font-style'', ''justify'', ''valign'', ''enclosure'', ''print-object''}"

definition STRIP_ELEMENTS :: "string set" where
  "STRIP_ELEMENTS = {''page-layout'', ''system-layout'', ''staff-layout'', ''appearance'',
     ''credit'', ''music-font'', ''word-font'', ''lyric-font'', ''lyric-language'', ''print''}"

definition ACCIDENTALS :: "(string \<times> string) list" where
  "ACCIDENTALS = [(''2'', ''x''), (''1'', ''#''), (''0'', []), (''-1'', ''b''), (''-2'', ''bb'')]"

section \<open>Helpers\<close>

text \<open>\<open>str.split(sep)\<close> for a separator of one character: the pieces between its occurrences.\<close>

fun split_char :: "char \<Rightarrow> string \<Rightarrow> string list" where
  "split_char sep [] = [[]]"
| "split_char sep (c # cs) =
     (if c = sep then [] # split_char sep cs
      else (case split_char sep cs of
              [] \<Rightarrow> [[c]]
            | w # ws \<Rightarrow> (c # w) # ws))"

text \<open>\<open>detag\<close>: \<open>tag.split('}')[-1] if '}' in tag else tag\<close>.\<close>

definition detag :: "element \<Rightarrow> string" where
  "detag el =
     (let t = tag el
      in if CHR ''}'' \<in> set t then last (split_char CHR ''}'' t) else t)"

text \<open>
  \<open>pitch_name\<close>: \<open>None\<close> for a missing element; otherwise step, accidental and octave.
  \<open>alter_key\<close> is the \<open>try\<close> block: only \<open>ValueError\<close> is caught around
  \<open>str(int(round(float(alter))))\<close> and gives the key \<open>'0'\<close>; any other exception leaves
  the function. \<open>text_or\<close> is \<open>findtext\<close> with a string for default.
\<close>

definition text_or :: "element \<Rightarrow> step list \<Rightarrow> string \<Rightarrow> string" where
  "text_or el path dflt =
     (case findtext el path (Some dflt) of None \<Rightarrow> dflt | Some s \<Rightarrow> s)"

definition alter_key :: "string \<Rightarrow> error + string" where
  "alter_key alter =
     (case and_then (py_float alter) py_round of
        Inr i \<Rightarrow> Inr (py_str i)
      | Inl ValueError \<Rightarrow> Inr ''0''
      | Inl OverflowError \<Rightarrow> Inl OverflowError)"

definition pitch_name :: "element option \<Rightarrow> error + string option" where
  "pitch_name pitch_el =
     (case pitch_el of
        None \<Rightarrow> Inr None
      | Some p \<Rightarrow>
          (let stp = text_or p [Child ''step''] [];
               alter = py_strip (text_or p [Child ''alter''] ''0'');
               octave = text_or p [Child ''octave''] []
           in and_then (alter_key alter) (\<lambda>k.
                let acc = (case map_of ACCIDENTALS k of None \<Rightarrow> [] | Some a \<Rightarrow> a)
                in Inr (Some (stp @ acc @ octave)))))"

section \<open>XML stripping\<close>

text \<open>\<open>del d[k]\<close> on the attribute dictionary.\<close>

definition dict_del :: "string \<Rightarrow> (string \<times> 'v) list \<Rightarrow> (string \<times> 'v) list" where
  "dict_del k d = filter (\<lambda>kv. fst kv \<noteq> k) d"

text \<open>
  \<open>strip_attributes\<close>: the loop runs over a copy of the keys (\<open>list(element.attrib)\<close>) and
  deletes from the dictionary each key that is in \<open>STRIP_ATTRS\<close>.
\<close>

fun strip_attributes_loop ::
  "string list \<Rightarrow> (string \<times> string) list \<Rightarrow> (string \<times> string) list" where
  "strip_attributes_loop [] d = d"
| "strip_attributes_loop (attr # attrs) d =
     strip_attributes_loop attrs (if attr \<in> STRIP_ATTRS then dict_del attr d else d)"

definition strip_attributes :: "element \<Rightarrow> element" where
  "strip_attributes el =
     Element (tag el) (strip_attributes_loop (map fst (attrib el)) (attrib el)) (etext el)
       (children el)"

text \<open>
  \<open>strip_tree\<close>: a child whose bare tag is in \<open>STRIP_ELEMENTS\<close> is put on \<open>to_remove\<close> and
  removed from the parent after the loop; every other child has its attributes stripped
  and is walked in turn. \<open>strip_children\<close> is the loop over the children together with the
  removal that follows it: it returns the children the parent is left with.
\<close>

function strip_tree :: "element \<Rightarrow> element"
  and strip_children :: "element list \<Rightarrow> element list" where
  "strip_tree (Element t a x cs) = Element t a x (strip_children cs)"
| "strip_children [] = []"
| "strip_children (child # rest) =
     (if detag child \<in> STRIP_ELEMENTS then strip_children rest
      else strip_tree (strip_attributes child) # strip_children rest)"
  by pat_completeness auto
termination
proof (relation "measure (\<lambda>v. case v of Inl el \<Rightarrow> size el | Inr els \<Rightarrow> size_list size els)")
  show "wf (measure (\<lambda>v. case v of Inl el \<Rightarrow> size el | Inr els \<Rightarrow> size_list size els))"
    by simp
next
  fix t a x cs
  show "(Inr cs, Inl (Element t a x cs))
      \<in> measure (\<lambda>v. case v of Inl el \<Rightarrow> size el | Inr els \<Rightarrow> size_list size els)"
    by simp
next
  fix child :: element and rest :: "element list"
  show "(Inr rest, Inr (child # rest))
      \<in> measure (\<lambda>v. case v of Inl el \<Rightarrow> size el | Inr els \<Rightarrow> size_list size els)"
    by simp
next
  fix child :: element and rest :: "element list"
  have "size (strip_attributes child) = size child"
    by (cases child) (simp add: strip_attributes_def)
  then show "(Inl (strip_attributes child), Inr (child # rest))
      \<in> measure (\<lambda>v. case v of Inl el \<Rightarrow> size el | Inr els \<Rightarrow> size_list size els)"
    by simp
next
  fix child :: element and rest :: "element list"
  show "(Inr rest, Inr (child # rest))
      \<in> measure (\<lambda>v. case v of Inl el \<Rightarrow> size el | Inr els \<Rightarrow> size_list size els)"
    by simp
qed

text \<open>The stripping pass of \<open>main\<close>: \<open>strip_attributes(root)\<close>, then \<open>strip_tree(root)\<close>.\<close>

definition strip_document :: "element \<Rightarrow> element" where
  "strip_document root_el = strip_tree (strip_attributes root_el)"

section \<open>JSON conversion\<close>

text \<open>
  The values \<open>build_json\<close> puts into its result. A Python \<open>dict\<close> keeps its keys in the
  order of their first assignment: \<open>dict_set\<close> is \<open>d[k] = v\<close>.
\<close>

datatype json =
  JNull | JBool bool | JInt int | JStr string | JList "json list" | JDict "(string \<times> json) list"

fun dict_set :: "string \<Rightarrow> 'v \<Rightarrow> (string \<times> 'v) list \<Rightarrow> (string \<times> 'v) list" where
  "dict_set k v [] = [(k, v)]"
| "dict_set k v (kv # d) = (if fst kv = k then (k, v) # d else kv # dict_set k v d)"

definition opt_str :: "string option \<Rightarrow> json" where
  "opt_str s = (case s of None \<Rightarrow> JNull | Some t \<Rightarrow> JStr t)"

definition SCHEMA :: string where
  "SCHEMA =
     ''measures[]{number, key_fifths?, time?, tempo?, dynamics[]?, wedges[]?, '' @
     ''pedals[]?, directions[]?, '' @
     ''notes[]{voice, staff, pitch|'' @ [CHR 0x27] @ ''rest'' @ [CHR 0x27] @
     '', type, dots?, beam[]?, chord?, tie?, '' @
     ''grace?, artic[]?, ornament[]?, slur?, tuplet?}}''"

subsection \<open>The fields of a measure\<close>

text \<open>\<open>int(measure_el.get('number', 0))\<close>.\<close>

definition measure_number :: "element \<Rightarrow> error + int" where
  "measure_number measure_el =
     (case elem_get measure_el ''number'' of None \<Rightarrow> Inr 0 | Some s \<Rightarrow> py_int s)"

definition key_section ::
  "element \<Rightarrow> (string \<times> json) list \<Rightarrow> error + (string \<times> json) list" where
  "key_section measure_el m =
     (case find measure_el [Self, Descendant ''key''] of
        None \<Rightarrow> Inr m
      | Some key_el \<Rightarrow>
          (case findtext key_el [Child ''fifths''] None of
             None \<Rightarrow> Inr m
           | Some fifths \<Rightarrow>
               and_then (py_int fifths) (\<lambda>v. Inr (dict_set ''key_fifths'' (JInt v) m))))"

definition time_section :: "element \<Rightarrow> (string \<times> json) list \<Rightarrow> (string \<times> json) list" where
  "time_section measure_el m =
     (case find measure_el [Self, Descendant ''time''] of
        None \<Rightarrow> m
      | Some time_el \<Rightarrow>
          (case (findtext time_el [Child ''beats''] None,
                 findtext time_el [Child ''beat-type''] None) of
             (Some beats, Some beat_type) \<Rightarrow>
               if beats \<noteq> [] \<and> beat_type \<noteq> []
               then dict_set ''time'' (JStr (beats @ ''/'' @ beat_type)) m
               else m
           | _ \<Rightarrow> m))"

text \<open>The loop over \<open>measure_el.iter('metronome')\<close>, left at the first marking with a text.\<close>

fun tempo_loop ::
  "element list \<Rightarrow> (string \<times> json) list \<Rightarrow> error + (string \<times> json) list" where
  "tempo_loop [] m = Inr m"
| "tempo_loop (metro # rest) m =
     (case findtext metro [Child ''per-minute''] None of
        None \<Rightarrow> tempo_loop rest m
      | Some per_minute \<Rightarrow>
          if per_minute \<noteq> []
          then and_then (and_then (py_float per_minute) int_of_float)
                 (\<lambda>v. Inr (dict_set ''tempo'' (JInt v) m))
          else tempo_loop rest m)"

text \<open>The two nested loops that collect the text directions.\<close>

fun words_loop :: "element list \<Rightarrow> string list \<Rightarrow> string list" where
  "words_loop [] directions = directions"
| "words_loop (words_el # rest) directions =
     words_loop rest
       (case etext words_el of
          None \<Rightarrow> directions
        | Some t \<Rightarrow> if t \<noteq> [] then directions @ [py_strip t] else directions)"

fun directions_loop :: "element list \<Rightarrow> string list \<Rightarrow> string list" where
  "directions_loop [] directions = directions"
| "directions_loop (dir_el # rest) directions =
     directions_loop rest (words_loop (findall dir_el [Self, Descendant ''words'']) directions)"

definition directions_section ::
  "element \<Rightarrow> (string \<times> json) list \<Rightarrow> (string \<times> json) list" where
  "directions_section measure_el m =
     (let directions = directions_loop (findall measure_el [Child ''direction'']) []
      in if directions \<noteq> [] then dict_set ''directions'' (JList (map JStr directions)) m
         else m)"

text \<open>Hairpin wedges: the type, and the number when the attribute is there and not empty.\<close>

definition wedge_entry :: "element \<Rightarrow> error + json" where
  "wedge_entry wedge_el =
     (let w = [(''type'', opt_str (elem_get wedge_el ''type''))]
      in case elem_get wedge_el ''number'' of
           None \<Rightarrow> Inr (JDict w)
         | Some num \<Rightarrow>
             if num \<noteq> []
             then and_then (py_int num) (\<lambda>v. Inr (JDict (dict_set ''number'' (JInt v) w)))
             else Inr (JDict w))"

fun wedge_loop :: "element list \<Rightarrow> json list \<Rightarrow> error + json list" where
  "wedge_loop [] wedges = Inr wedges"
| "wedge_loop (wedge_el # rest) wedges =
     and_then (wedge_entry wedge_el) (\<lambda>w. wedge_loop rest (wedges @ [w]))"

fun wedges_loop :: "element list \<Rightarrow> json list \<Rightarrow> error + json list" where
  "wedges_loop [] wedges = Inr wedges"
| "wedges_loop (dir_el # rest) wedges =
     and_then (wedge_loop (findall dir_el [Self, Descendant ''wedge'']) wedges)
       (\<lambda>ws. wedges_loop rest ws)"

definition wedges_section ::
  "element \<Rightarrow> (string \<times> json) list \<Rightarrow> error + (string \<times> json) list" where
  "wedges_section measure_el m =
     and_then (wedges_loop (findall measure_el [Child ''direction'']) [])
       (\<lambda>wedges. Inr (if wedges \<noteq> [] then dict_set ''wedges'' (JList wedges) m else m))"

text \<open>Pedal markings: the type, and \<open>line == 'yes'\<close> when the attribute is there and not empty.\<close>

definition pedal_entry :: "element \<Rightarrow> json" where
  "pedal_entry pedal_el =
     (let p = [(''type'', opt_str (elem_get pedal_el ''type''))]
      in case elem_get pedal_el ''line'' of
           None \<Rightarrow> JDict p
         | Some line \<Rightarrow>
             if line \<noteq> [] then JDict (dict_set ''line'' (JBool (line = ''yes'')) p)
             else JDict p)"

fun pedals_loop :: "element list \<Rightarrow> json list \<Rightarrow> json list" where
  "pedals_loop [] pedals = pedals"
| "pedals_loop (dir_el # rest) pedals =
     pedals_loop rest (pedals @ map pedal_entry (findall dir_el [Self, Descendant ''pedal'']))"

definition pedals_section :: "element \<Rightarrow> (string \<times> json) list \<Rightarrow> (string \<times> json) list" where
  "pedals_section measure_el m =
     (let pedals = pedals_loop (findall measure_el [Child ''direction'']) []
      in if pedals \<noteq> [] then dict_set ''pedals'' (JList pedals) m else m)"

text \<open>
  Dynamics: \<open>dir_el.find('.//dynamics') or []\<close> is the first dynamics element when it has
  children (an element without children is false), and the empty list otherwise.
\<close>

definition dynamics_of :: "element \<Rightarrow> element list" where
  "dynamics_of dir_el =
     (case find dir_el [Self, Descendant ''dynamics''] of
        None \<Rightarrow> []
      | Some d \<Rightarrow> if children d \<noteq> [] then children d else [])"

fun dynamics_loop :: "element list \<Rightarrow> string list \<Rightarrow> string list" where
  "dynamics_loop [] dynamics = dynamics"
| "dynamics_loop (dir_el # rest) dynamics =
     dynamics_loop rest (dynamics @ map detag (dynamics_of dir_el))"

definition dynamics_section ::
  "element \<Rightarrow> (string \<times> json) list \<Rightarrow> (string \<times> json) list" where
  "dynamics_section measure_el m =
     (let dynamics = dynamics_loop (findall measure_el [Child ''direction'']) []
      in if dynamics \<noteq> [] then dict_set ''dynamics'' (JList (map JStr dynamics)) m else m)"

subsection \<open>The fields of a note\<close>

text \<open>\<open>if s: n[key] = int(s)\<close> for voice and staff.\<close>

definition set_int_field ::
  "string \<Rightarrow> string option \<Rightarrow> (string \<times> json) list \<Rightarrow> error + (string \<times> json) list" where
  "set_int_field key s n =
     (case s of
        None \<Rightarrow> Inr n
      | Some t \<Rightarrow>
          if t \<noteq> [] then and_then (py_int t) (\<lambda>v. Inr (dict_set key (JInt v) n))
          else Inr n)"

definition note_pitch ::
  "element \<Rightarrow> (string \<times> json) list \<Rightarrow> error + (string \<times> json) list" where
  "note_pitch note_el n =
     (let rest_el = find note_el [Child ''rest''];
          pitch_el = find note_el [Child ''pitch'']
      in if rest_el \<noteq> None then Inr (dict_set ''pitch'' (JStr ''rest'') n)
         else if pitch_el \<noteq> None
         then and_then (pitch_name pitch_el) (\<lambda>p. Inr (dict_set ''pitch'' (opt_str p) n))
         else Inr n)"

definition note_type :: "element \<Rightarrow> (string \<times> json) list \<Rightarrow> (string \<times> json) list" where
  "note_type note_el n =
     (case findtext note_el [Child ''type''] None of
        None \<Rightarrow> n
      | Some ntype \<Rightarrow> if ntype \<noteq> [] then dict_set ''type'' (JStr ntype) n else n)"

definition note_dots :: "element \<Rightarrow> (string \<times> json) list \<Rightarrow> (string \<times> json) list" where
  "note_dots note_el n =
     (let dots = length (findall note_el [Child ''dot''])
      in if dots \<noteq> 0 then dict_set ''dots'' (JInt (int dots)) n else n)"

definition note_chord :: "element \<Rightarrow> (string \<times> json) list \<Rightarrow> (string \<times> json) list" where
  "note_chord note_el n =
     (if find note_el [Child ''chord''] \<noteq> None then dict_set ''chord'' (JBool True) n else n)"

text \<open>\<open>[b.text.strip() for b in note_el.findall('beam') if b.text]\<close>.\<close>

definition note_beam :: "element \<Rightarrow> (string \<times> json) list \<Rightarrow> (string \<times> json) list" where
  "note_beam note_el n =
     (let beams = concat (map (\<lambda>b. case etext b of
                                     None \<Rightarrow> []
                                   | Some t \<Rightarrow> if t \<noteq> [] then [py_strip t] else [])
                            (findall note_el [Child ''beam'']))
      in if beams \<noteq> [] then dict_set ''beam'' (JList (map JStr beams)) n else n)"

definition note_grace :: "element \<Rightarrow> (string \<times> json) list \<Rightarrow> (string \<times> json) list" where
  "note_grace note_el n =
     (if find note_el [Child ''grace''] \<noteq> None then dict_set ''grace'' (JBool True) n else n)"

text \<open>The tie loop, left at the first tie whose \<open>type\<close> attribute is there and not empty.\<close>

fun tie_loop :: "element list \<Rightarrow> (string \<times> json) list \<Rightarrow> (string \<times> json) list" where
  "tie_loop [] n = n"
| "tie_loop (tie_el # rest) n =
     (case elem_get tie_el ''type'' of
        None \<Rightarrow> tie_loop rest n
      | Some tie_type \<Rightarrow>
          if tie_type \<noteq> [] then dict_set ''tie'' (JStr tie_type) n else tie_loop rest n)"

definition note_tie :: "element \<Rightarrow> (string \<times> json) list \<Rightarrow> (string \<times> json) list" where
  "note_tie note_el n = tie_loop (findall note_el [Child ''tie'']) n"

definition note_artic :: "element \<Rightarrow> (string \<times> json) list \<Rightarrow> (string \<times> json) list" where
  "note_artic note_el n =
     (let artics = map detag (findall note_el [Self, Descendant ''articulations'', Star])
      in if artics \<noteq> [] then dict_set ''artic'' (JList (map JStr artics)) n else n)"

definition note_ornament :: "element \<Rightarrow> (string \<times> json) list \<Rightarrow> (string \<times> json) list" where
  "note_ornament note_el n =
     (let ornaments = map detag (findall note_el [Self, Descendant ''ornaments'', Star])
      in if ornaments \<noteq> [] then dict_set ''ornament'' (JList (map JStr ornaments)) n else n)"

fun slur_loop :: "element list \<Rightarrow> (string \<times> json) list \<Rightarrow> (string \<times> json) list" where
  "slur_loop [] n = n"
| "slur_loop (slur_el # rest) n =
     (case elem_get slur_el ''type'' of
        None \<Rightarrow> slur_loop rest n
      | Some slur_type \<Rightarrow>
          if slur_type \<noteq> [] then dict_set ''slur'' (JStr slur_type) n else slur_loop rest n)"

definition note_slur :: "element \<Rightarrow> (string \<times> json) list \<Rightarrow> (string \<times> json) list" where
  "note_slur note_el n = slur_loop (findall note_el [Self, Descendant ''slur'']) n"

text \<open>
  The tuplet loop: it goes on to the first tuplet of type \<open>start\<close>, reads both counts from
  anywhere in the note, records them when both have a text, and stops.
\<close>

fun tuplet_loop ::
  "element \<Rightarrow> element list \<Rightarrow> (string \<times> json) list \<Rightarrow> (string \<times> json) list" where
  "tuplet_loop note_el [] n = n"
| "tuplet_loop note_el (tuplet_el # rest) n =
     (if elem_get tuplet_el ''type'' = Some ''start'' then
        (case (findtext note_el [Self, Descendant ''actual-notes''] None,
               findtext note_el [Self, Descendant ''normal-notes''] None) of
           (Some actual, Some normal) \<Rightarrow>
             if actual \<noteq> [] \<and> normal \<noteq> []
             then dict_set ''tuplet'' (JStr (actual @ '':'' @ normal)) n
             else n
         | _ \<Rightarrow> n)
      else tuplet_loop note_el rest n)"

definition note_tuplet :: "element \<Rightarrow> (string \<times> json) list \<Rightarrow> (string \<times> json) list" where
  "note_tuplet note_el n = tuplet_loop note_el (findall note_el [Self, Descendant ''tuplet'']) n"

text \<open>One pass of the loop over the notes of a measure: the dictionary \<open>n\<close> of a note.\<close>

definition build_note :: "element \<Rightarrow> error + (string \<times> json) list" where
  "build_note note_el =
     (let voice = findtext note_el [Child ''voice''] None;
          staff = findtext note_el [Child ''staff''] None
      in and_then (set_int_field ''voice'' voice []) (\<lambda>n.
         and_then (set_int_field ''staff'' staff n) (\<lambda>n.
         and_then (note_pitch note_el n) (\<lambda>n.
           Inr (note_tuplet note_el (note_slur note_el (note_ornament note_el
                 (note_artic note_el (note_tie note_el (note_grace note_el
                   (note_beam note_el (note_chord note_el (note_dots note_el
                     (note_type note_el n))))))))))))))"

fun notes_loop :: "element list \<Rightarrow> json list \<Rightarrow> error + json list" where
  "notes_loop [] notes = Inr notes"
| "notes_loop (note_el # rest) notes =
     and_then (build_note note_el) (\<lambda>n. notes_loop rest (notes @ [JDict n]))"

subsection \<open>Measures and the score\<close>

text \<open>
  One pass of the loop over the measures, in the order of the source: number, key, time,
  tempo, directions, wedges, pedals, the notes, then the dynamics and last the notes
  field.
\<close>

definition build_measure :: "element \<Rightarrow> error + (string \<times> json) list" where
  "build_measure measure_el =
     and_then (measure_number measure_el) (\<lambda>number.
     let m = [(''number'', JInt number)] in
     and_then (key_section measure_el m) (\<lambda>m.
     let m = time_section measure_el m in
     and_then (tempo_loop (iter ''metronome'' measure_el) m) (\<lambda>m.
     let m = directions_section measure_el m in
     and_then (wedges_section measure_el m) (\<lambda>m.
     let m = pedals_section measure_el m in
     and_then (notes_loop (findall measure_el [Child ''note'']) []) (\<lambda>notes.
     let m = dynamics_section measure_el m in
     Inr (if notes \<noteq> [] then dict_set ''notes'' (JList notes) m else m))))))"

fun measures_loop :: "element list \<Rightarrow> json list \<Rightarrow> error + json list" where
  "measures_loop [] measure_list = Inr measure_list"
| "measures_loop (measure_el # rest) measure_list =
     and_then (build_measure measure_el) (\<lambda>m. measures_loop rest (measure_list @ [JDict m]))"

text \<open>The loop over the creators: the last composer and the last arranger win.\<close>

fun creator_loop :: "element list \<Rightarrow> (string \<times> json) list \<Rightarrow> (string \<times> json) list" where
  "creator_loop [] score = score"
| "creator_loop (creator # rest) score =
     (let role = (case elem_get creator ''type'' of None \<Rightarrow> [] | Some r \<Rightarrow> r)
      in creator_loop rest
           (if role = ''composer'' then dict_set ''composer'' (opt_str (etext creator)) score
            else if role = ''arranger'' then dict_set ''arranger'' (opt_str (etext creator)) score
            else score))"

text \<open>\<open>root.findtext('work/work-title') or root.findtext('movement-title') or None\<close>.\<close>

definition score_title :: "element \<Rightarrow> string option" where
  "score_title root_el =
     (let a = findtext root_el [Child ''work'', Child ''work-title''] None
      in if truthy a then a
         else (let b = findtext root_el [Child ''movement-title''] None
               in if truthy b then b else None))"

definition build_json :: "element \<Rightarrow> error + (string \<times> json) list" where
  "build_json root_el =
     (let score = dict_set ''_schema'' (JStr SCHEMA) [];
          score = dict_set ''title'' (opt_str (score_title root_el)) score;
          score = dict_set ''composer'' JNull score;
          score = dict_set ''arranger'' JNull score;
          score = creator_loop (findall root_el [Child ''identification'', Child ''creator''])
                    score
      in and_then (measures_loop (iter ''measure'' root_el) [])
           (\<lambda>measure_list. Inr (dict_set ''measures'' (JList measure_list) score)))"

section \<open>Notions the properties are stated with\<close>

text \<open>
  What a measure holds in the source, said with the elements it contains and not with
  the extractor's own searches: a key with a fifths child, a time with a beats and a
  beat-type text, a metronome with a per-minute text, and inside a direction that is a
  child of the measure a words element with a text, a wedge, a pedal, a dynamics element
  with a child; and a note child. \<open>has_text\<close> asks for a text that is not empty, be it of
  white space only.
\<close>

definition has_text :: "element \<Rightarrow> step list \<Rightarrow> bool" where
  "has_text el path = (\<exists>e\<in>set (findall el path). truthy (etext e))"

definition carries_key :: "element \<Rightarrow> bool" where
  "carries_key m =
     (\<exists>k\<in>set (findall m [Self, Descendant ''key'']). findall k [Child ''fifths''] \<noteq> [])"

definition carries_time :: "element \<Rightarrow> bool" where
  "carries_time m =
     (\<exists>t\<in>set (findall m [Self, Descendant ''time'']).
        has_text t [Child ''beats''] \<and> has_text t [Child ''beat-type''])"

definition carries_tempo :: "element \<Rightarrow> bool" where
  "carries_tempo m = (\<exists>mt\<in>set (iter ''metronome'' m). has_text mt [Child ''per-minute''])"

definition has_direction_text :: "element \<Rightarrow> bool" where
  "has_direction_text m =
     (\<exists>d\<in>set (findall m [Child ''direction'']). has_text d [Self, Descendant ''words''])"

text \<open>
  A text direction as the specification counts it: a words element, inside a direction
  that is a child of the measure, whose text is not empty once stripped.
\<close>

definition carries_directions :: "element \<Rightarrow> bool" where
  "carries_directions m =
     (\<exists>d\<in>set (findall m [Child ''direction'']).
        \<exists>w\<in>set (findall d [Self, Descendant ''words'']).
          (case etext w of None \<Rightarrow> False | Some t \<Rightarrow> py_strip t \<noteq> []))"

definition carries_wedges :: "element \<Rightarrow> bool" where
  "carries_wedges m =
     (\<exists>d\<in>set (findall m [Child ''direction'']). findall d [Self, Descendant ''wedge''] \<noteq> [])"

definition carries_pedals :: "element \<Rightarrow> bool" where
  "carries_pedals m =
     (\<exists>d\<in>set (findall m [Child ''direction'']). findall d [Self, Descendant ''pedal''] \<noteq> [])"

definition carries_dynamics :: "element \<Rightarrow> bool" where
  "carries_dynamics m =
     (\<exists>d\<in>set (findall m [Child ''direction'']).
        \<exists>y\<in>set (findall d [Self, Descendant ''dynamics'']). children y \<noteq> [])"

definition carries_notes :: "element \<Rightarrow> bool" where
  "carries_notes m = (findall m [Child ''note''] \<noteq> [])"

text \<open>
  A measure with none of it: no key, time, metronome, dynamics, words, wedge or pedal
  element anywhere in it, and no note child.
\<close>

definition no_music :: "element \<Rightarrow> bool" where
  "no_music m =
     (iter ''key'' m = [] \<and> iter ''time'' m = [] \<and> iter ''metronome'' m = []
      \<and> iter ''dynamics'' m = [] \<and> iter ''words'' m = [] \<and> iter ''wedge'' m = []
      \<and> iter ''pedal'' m = [] \<and> findall m [Child ''note''] = [])"

definition measure_keys :: "string set" where
  "measure_keys = {''number'', ''key_fifths'', ''time'', ''tempo'', ''directions'', ''wedges'',
     ''pedals'', ''dynamics'', ''notes''}"

text \<open>
  The texts of the words elements inside the directions that are children of the measure,
  in document order, those with a text that is not empty, each stripped.
\<close>

definition direction_texts :: "element \<Rightarrow> string list" where
  "direction_texts m =
     map py_strip
       (filter (\<lambda>t. t \<noteq> [])
          (map (\<lambda>w. case etext w of None \<Rightarrow> [] | Some t \<Rightarrow> t)
             (concat (map (\<lambda>d. findall d [Self, Descendant ''words''])
                        (findall m [Child ''direction''])))))"

text \<open>The tie children of a note whose \<open>type\<close> attribute is there and not empty.\<close>

definition typed_ties :: "element \<Rightarrow> element list" where
  "typed_ties note_el =
     filter (\<lambda>t. truthy (elem_get t ''type'')) (findall note_el [Child ''tie''])"

text \<open>A count that can be read from anywhere in the note: the first such element's text,
  when it is not empty.\<close>

definition read_count :: "element \<Rightarrow> string \<Rightarrow> string option" where
  "read_count note_el name =
     (case findtext note_el [Self, Descendant name] None of
        None \<Rightarrow> None
      | Some s \<Rightarrow> if s \<noteq> [] then Some s else None)"

text \<open>A tuplet of type \<open>start\<close> anywhere below the note.\<close>

definition tuplet_start :: "element \<Rightarrow> bool" where
  "tuplet_start note_el =
     (\<exists>t\<in>set (findall note_el [Self, Descendant ''tuplet'']). elem_get t ''type'' = Some ''start'')"

text \<open>The accidental mapping, on the rounded alteration.\<close>

definition accidental_symbol :: "int \<Rightarrow> string" where
  "accidental_symbol i =
     (if i = - 2 then ''bb'' else if i = - 1 then ''b'' else if i = 1 then ''#''
      else if i = 2 then ''x'' else [])"

text \<open>
  The numbers the extractor converts are readable: a text handed to \<open>int\<close> is an integer
  literal, the tempo is a finite number, the alteration of a pitch does not overflow.
  \<open>readable_int\<close> is for the texts converted only when they are not empty.
\<close>

definition succeeds :: "error + 'a \<Rightarrow> bool" where
  "succeeds r = (case r of Inl e \<Rightarrow> False | Inr v \<Rightarrow> True)"

definition readable_int :: "string option \<Rightarrow> bool" where
  "readable_int s = (case s of None \<Rightarrow> True | Some t \<Rightarrow> t = [] \<or> succeeds (py_int t))"

definition note_ok :: "element \<Rightarrow> bool" where
  "note_ok note_el =
     (readable_int (findtext note_el [Child ''voice''] None)
      \<and> readable_int (findtext note_el [Child ''staff''] None)
      \<and> (findall note_el [Child ''rest''] \<noteq> [] \<or> findall note_el [Child ''pitch''] = []
           \<or> succeeds (pitch_name (find note_el [Child ''pitch'']))))"

definition number_ok :: "element \<Rightarrow> bool" where
  "number_ok m = (case elem_get m ''number'' of None \<Rightarrow> True | Some s \<Rightarrow> succeeds (py_int s))"

definition key_ok :: "element \<Rightarrow> bool" where
  "key_ok m =
     (case findall m [Self, Descendant ''key''] of
        [] \<Rightarrow> True
      | k # _ \<Rightarrow>
          (case findall k [Child ''fifths''] of
             [] \<Rightarrow> True
           | f # _ \<Rightarrow> succeeds (py_int (case etext f of None \<Rightarrow> [] | Some t \<Rightarrow> t))))"

definition tempo_ok :: "element \<Rightarrow> bool" where
  "tempo_ok m =
     (case filter (\<lambda>t. t \<noteq> [])
             (map (\<lambda>mt. case findtext mt [Child ''per-minute''] None of
                          None \<Rightarrow> [] | Some t \<Rightarrow> t)
                (iter ''metronome'' m)) of
        [] \<Rightarrow> True
      | t # _ \<Rightarrow> succeeds (and_then (py_float t) int_of_float))"

definition wedges_ok :: "element \<Rightarrow> bool" where
  "wedges_ok m =
     (\<forall>d\<in>set (findall m [Child ''direction'']).
        \<forall>w\<in>set (findall d [Self, Descendant ''wedge'']). readable_int (elem_get w ''number''))"

definition measure_ok :: "element \<Rightarrow> bool" where
  "measure_ok m =
     (number_ok m \<and> key_ok m \<and> tempo_ok m \<and> wedges_ok m
      \<and> list_all note_ok (findall m [Child ''note'']))"

text \<open>
  A list of element names as an output field: absent for no element, else the bare
  names. \<open>dynamics_marks\<close> are the children of the first dynamics element of each
  direction that is a child of the measure.
\<close>

definition names_field :: "element list \<Rightarrow> json option" where
  "names_field els = (if els = [] then None else Some (JList (map (\<lambda>e. JStr (detag e)) els)))"

definition dynamics_marks :: "element \<Rightarrow> element list" where
  "dynamics_marks m =
     concat (map (\<lambda>d. case findall d [Self, Descendant ''dynamics''] of
                         [] \<Rightarrow> []
                       | y # _ \<Rightarrow> children y)
               (findall m [Child ''direction'']))"

text \<open>The same tree with every tag replaced by its bare name.\<close>

fun unqualify :: "element \<Rightarrow> element" where
  "unqualify (Element t a x cs) = Element (detag (Element t a x cs)) a x (map unqualify cs)"

text \<open>Creators of a given role, as \<open>build_json\<close> finds them.\<close>

definition creators :: "element \<Rightarrow> string \<Rightarrow> element list" where
  "creators root_el role =
     filter (\<lambda>c. elem_get c ''type'' = Some role)
       (findall root_el [Child ''identification'', Child ''creator''])"

section \<open>Example documents\<close>

definition ex_bare :: element where
  "ex_bare = Element ''measure'' [(''number'', ''7'')] None [Element ''barline'' [] None []]"

definition ex_keyed :: element where
  "ex_keyed = Element ''measure'' [(''number'', ''2'')] None
     [Element ''attributes'' [] None
        [Element ''key'' [] None [Element ''fifths'' [] (Some ''-5'') []]],
      Element ''note'' [] None [Element ''rest'' [] None []]]"

definition ex_unnumbered :: element where
  "ex_unnumbered = Element ''measure'' [] None []"

definition ex_implicit :: element where
  "ex_implicit =
     Element ''score-partwise'' [] None
       [Element ''part'' [] None [Element ''measure'' [(''number'', ''X1'')] None []]]"

definition ex_blank_words :: element where
  "ex_blank_words = Element ''measure'' [(''number'', ''1'')] None
     [Element ''direction'' [] None
        [Element ''direction-type'' [] None [Element ''words'' [] (Some ''  '') []]]]"

definition ex_words :: element where
  "ex_words = Element ''measure'' [(''number'', ''1'')] None
     [Element ''direction'' [] None
        [Element ''direction-type'' [] None
           [Element ''words'' [] (Some '' cresc. '') [], Element ''words'' [] None []]],
      Element ''harmony'' [] None [Element ''words'' [] (Some ''no'') []]]"

definition ex_layout :: element where
  "ex_layout = Element ''measure'' [(''print-object'', ''no''), (''number'', ''1'')] None
     [Element ''page-layout'' [] None [],
      Element ''{urn:x}print'' [] None [],
      Element ''note'' [(''color'', ''#FF0000'')] None [Element ''print'' [] None []]]"

definition ex_two_ties :: element where
  "ex_two_ties = Element ''note'' [] None
     [Element ''tie'' [(''type'', ''start'')] None [],
      Element ''tie'' [(''type'', ''stop'')] None []]"

definition ex_blank_tie :: element where
  "ex_blank_tie = Element ''note'' [] None
     [Element ''tie'' [(''type'', '''')] None [],
      Element ''tie'' [(''type'', ''stop'')] None []]"

definition ex_triplet :: element where
  "ex_triplet = Element ''note'' [] None
     [Element ''time-modification'' [] None
        [Element ''actual-notes'' [] (Some ''3'') [], Element ''normal-notes'' [] (Some ''2'') []],
      Element ''notations'' [] None
        [Element ''tuplet'' [(''type'', ''stop'')] None [],
         Element ''tuplet'' [(''type'', ''start'')] None []]]"

definition ex_namespaced :: element where
  "ex_namespaced =
     Element ''{urn:x}score-partwise'' [] None
       [Element ''{urn:x}part'' [] None
          [Element ''{urn:x}measure'' [(''number'', ''1'')] None []]]"

definition ex_score :: element where
  "ex_score =
     Element ''score-partwise'' [] None
       [Element ''movement-title'' [] (Some ''Etude'') [],
        Element ''identification'' [] None
          [Element ''creator'' [(''type'', ''composer'')] (Some ''A'') [],
           Element ''creator'' [(''type'', ''lyricist'')] (Some ''B'') []],
        Element ''part'' [] None [Element ''measure'' [(''number'', ''1'')] None []]]"

definition ex_untitled :: element where
  "ex_untitled = Element ''score-partwise'' [] None []"

definition ex_huge_alter :: element where
  "ex_huge_alter = Element ''pitch'' [] None
     [Element ''step'' [] (Some ''C'') [], Element ''alter'' [] (Some ''1e400'') [],
      Element ''octave'' [] (Some ''5'') []]"

definition ex_pitch :: "string \<Rightarrow> element" where
  "ex_pitch alter = Element ''pitch'' [] None
     [Element ''step'' [] (Some ''C'') [], Element ''alter'' [] (Some alter) [],
      Element ''octave'' [] (Some ''5'') []]"

definition ex_bare_implicit :: element where
  "ex_bare_implicit = Element ''measure'' [(''number'', ''X1'')] None []"

definition ex_bad_voice :: element where
  "ex_bad_voice = Element ''note'' [] None
     [Element ''voice'' [] (Some ''x'') [],
      Element ''time-modification'' [] None
        [Element ''actual-notes'' [] (Some ''3'') [], Element ''normal-notes'' [] (Some ''2'') []],
      Element ''notations'' [] None [Element ''tuplet'' [(''type'', ''start'')] None []]]"

definition ex_start_only :: element where
  "ex_start_only = Element ''note'' [] None
     [Element ''time-modification'' [] None [Element ''actual-notes'' [] (Some ''3'') []],
      Element ''notations'' [] None [Element ''tuplet'' [(''type'', ''start'')] None []]]"

definition ex_staccato :: element where
  "ex_staccato = Element ''note'' [] None
     [Element ''notations'' [] None
        [Element ''articulations'' [] None
           [Element ''{urn:x}staccato'' [] None [], Element ''accent'' [] None []],
         Element ''ornaments'' [] None [Element ''{urn:x}trill-mark'' [] None []]]]"

definition ex_forte :: element where
  "ex_forte = Element ''measure'' [(''number'', ''3'')] None
     [Element ''direction'' [] None
        [Element ''direction-type'' [] None
           [Element ''dynamics'' [] None [Element ''{urn:x}f'' [] None []]]]]"

section \<open>Properties of the stripping pass\<close>

lemma strip_attributes_loop_filter:
  "strip_attributes_loop ks d = filter (\<lambda>kv. fst kv \<notin> STRIP_ATTRS \<or> fst kv \<notin> set ks) d"
proof (induction ks arbitrary: d)
  case Nil
  show ?case by simp
next
  case (Cons k ks)
  show ?case
    by (auto simp: Cons.IH dict_del_def intro!: filter_cong)
qed

lemma strip_attributes_filter:
  "strip_attributes el =
     Element (tag el) (filter (\<lambda>kv. fst kv \<notin> STRIP_ATTRS) (attrib el)) (etext el) (children el)"
proof -
  have "filter (\<lambda>kv. fst kv \<notin> STRIP_ATTRS \<or> fst kv \<notin> set (map fst (attrib el))) (attrib el)
      = filter (\<lambda>kv. fst kv \<notin> STRIP_ATTRS) (attrib el)"
    by (rule filter_cong) auto
  then show ?thesis
    by (simp add: strip_attributes_def strip_attributes_loop_filter)
qed

lemma strip_attributes_idem: "strip_attributes (strip_attributes el) = strip_attributes el"
  by (simp add: strip_attributes_filter)

lemma detag_strip_attributes: "detag (strip_attributes el) = detag el"
  by (simp add: strip_attributes_filter detag_def)

lemma strip_tree_commute:
  "strip_attributes (strip_tree el) = strip_tree (strip_attributes el)"
  by (cases el) (simp add: strip_attributes_filter)

lemma detag_strip_tree: "detag (strip_tree el) = detag el"
  by (cases el) (simp add: detag_def)

lemma strip_idem_mutual:
  "strip_tree (strip_tree el) = strip_tree el"
  "strip_children (strip_children els) = strip_children els"
proof (induction el and els rule: strip_tree_strip_children.induct)
  case (1 t a x cs)
  then show ?case by simp
next
  case 2
  show ?case by simp
next
  case (3 child rest)
  then show ?case
    by (simp add: detag_strip_tree detag_strip_attributes strip_tree_commute
        strip_attributes_idem)
qed

text \<open>
  C3. The stripping pass is idempotent: run on a tree it has already stripped, it removes
  no attribute and no element, and gives the same tree back.
\<close>

theorem strip_document_idempotent:
  "strip_document (strip_document root_el) = strip_document root_el"
  by (simp add: strip_document_def strip_tree_commute strip_attributes_idem strip_idem_mutual(1))

theorem strip_document_idempotent_witness:
  "strip_document (strip_document ex_layout) =
     Element ''measure'' [(''number'', ''1'')] None [Element ''note'' [] None []]"
proof -
  have "strip_document ex_layout =
      Element ''measure'' [(''number'', ''1'')] None [Element ''note'' [] None []]"
    by code_simp
  with strip_document_idempotent [of ex_layout] show ?thesis by simp
qed
section \<open>Dictionaries, errors and searches\<close>

lemma and_then_Inr: "and_then r f = Inr y \<longleftrightarrow> (\<exists>v. r = Inr v \<and> f v = Inr y)"
  by (cases r) (simp_all add: and_then_def)

lemma map_of_dict_set: "map_of (dict_set k v d) k' = (if k' = k then Some v else map_of d k')"
  by (induction d) auto

lemma key_in_dict: "k \<in> fst ` set d \<longleftrightarrow> map_of d k \<noteq> None"
  by (induction d) auto

lemma find_None_iff: "find el path = None \<longleftrightarrow> findall el path = []"
  by (simp add: find_def split: list.splits)

lemma find_Some_in: "find el path = Some e \<Longrightarrow> e \<in> set (findall el path)"
  by (auto simp: find_def split: list.splits)

lemma findtext_None_Some:
  "findtext el path None = Some s \<Longrightarrow>
     \<exists>e. find el path = Some e \<and> s = (case etext e of None \<Rightarrow> [] | Some t \<Rightarrow> t)"
  by (auto simp: findtext_def split: option.splits)

lemma findtext_has_text:
  assumes "findtext el path None = Some s" and "s \<noteq> []"
  shows "has_text el path"
proof -
  from assms(1) obtain e where e: "find el path = Some e"
    and s: "s = (case etext e of None \<Rightarrow> [] | Some t \<Rightarrow> t)"
    using findtext_None_Some by blast
  from s assms(2) have "truthy (etext e)"
    by (auto simp: truthy_def split: option.splits)
  with find_Some_in [OF e] show ?thesis
    by (auto simp: has_text_def)
qed

lemma findtext_None_iff: "findtext el path None = None \<longleftrightarrow> findall el path = []"
  by (auto simp: findtext_def find_def split: option.splits list.splits)

lemma findall_descendant:
  "findall el [Self, Descendant name] = concat (map (iter name) (children el))"
  by (simp add: findall_def)

lemma findall_child: "findall el [Child name] = filter (\<lambda>e. tag e = name) (children el)"
  by (simp add: findall_def)

lemma iter_children_subset:
  "c \<in> set (children el) \<Longrightarrow> set (iter name c) \<subseteq> set (iter name el)"
  by (cases el) auto

lemma iter_Nil_children: "iter name el = [] \<Longrightarrow> c \<in> set (children el) \<Longrightarrow> iter name c = []"
  using iter_children_subset [of c el name] by auto

lemma iter_Nil_descendant: "iter name el = [] \<Longrightarrow> findall el [Self, Descendant name] = []"
  by (auto simp: findall_descendant dest: iter_Nil_children)

lemma iter_Nil_direction:
  assumes "iter name m = []" and "d \<in> set (findall m [Child ''direction''])"
  shows "findall d [Self, Descendant name] = []"
proof -
  from assms(2) have "d \<in> set (children m)" by (simp add: findall_child)
  with assms(1) have "iter name d = []" by (rule iter_Nil_children)
  then show ?thesis by (rule iter_Nil_descendant)
qed

section \<open>What each field of a measure depends on\<close>

lemma key_section_fp:
  assumes "key_section m d = Inr d'"
  shows "d' = d \<or> (carries_key m \<and> (\<exists>v. d' = dict_set ''key_fifths'' v d))"
proof (cases "find m [Self, Descendant ''key'']")
  case None
  with assms show ?thesis by (simp add: key_section_def)
next
  case (Some key_el)
  show ?thesis
  proof (cases "findtext key_el [Child ''fifths''] None")
    case None
    with Some assms show ?thesis by (simp add: key_section_def)
  next
    case (Some fifths)
    then have "findall key_el [Child ''fifths''] \<noteq> []"
      using findtext_None_iff [of key_el "[Child ''fifths'']"] by auto
    with find_Some_in [OF \<open>find m [Self, Descendant ''key''] = Some key_el\<close>]
    have "carries_key m" by (auto simp: carries_key_def)
    with Some \<open>find m [Self, Descendant ''key''] = Some key_el\<close> assms show ?thesis
      by (auto simp: key_section_def and_then_Inr)
  qed
qed

lemma time_section_fp:
  "time_section m d = d \<or> (carries_time m \<and> (\<exists>v. time_section m d = dict_set ''time'' v d))"
proof (cases "find m [Self, Descendant ''time'']")
  case None
  then show ?thesis by (simp add: time_section_def)
next
  case (Some time_el)
  show ?thesis
  proof (cases "time_section m d = d")
    case True
    then show ?thesis by simp
  next
    case False
    with Some obtain beats beat_type where
      b: "findtext time_el [Child ''beats''] None = Some beats" "beats \<noteq> []"
        "findtext time_el [Child ''beat-type''] None = Some beat_type" "beat_type \<noteq> []"
      by (auto simp: time_section_def split: option.splits if_splits)
    then have "has_text time_el [Child ''beats'']" "has_text time_el [Child ''beat-type'']"
      by (auto intro: findtext_has_text)
    with find_Some_in [OF Some] have "carries_time m"
      by (auto simp: carries_time_def)
    with Some b show ?thesis by (auto simp: time_section_def)
  qed
qed

lemma tempo_loop_fp:
  assumes "tempo_loop ms d = Inr d'"
  shows "d' = d \<or> ((\<exists>mt\<in>set ms. has_text mt [Child ''per-minute'']) \<and> (\<exists>v. d' = dict_set ''tempo'' v d))"
  using assms
proof (induction ms)
  case Nil
  then show ?case by simp
next
  case (Cons metro rest)
  show ?case
  proof (cases "findtext metro [Child ''per-minute''] None")
    case None
    with Cons show ?thesis by auto
  next
    case (Some pm)
    show ?thesis
    proof (cases "pm = []")
      case True
      with Some Cons show ?thesis by auto
    next
      case False
      with Some have "has_text metro [Child ''per-minute'']" by (auto intro: findtext_has_text)
      with Some False Cons.prems show ?thesis by (auto simp: and_then_Inr)
    qed
  qed
qed

lemma words_loop_eq:
  "words_loop ws acc =
     acc @ map py_strip (filter (\<lambda>t. t \<noteq> []) (map (\<lambda>w. case etext w of None \<Rightarrow> [] | Some t \<Rightarrow> t) ws))"
  by (induction ws arbitrary: acc) (auto split: option.splits)

lemma directions_loop_eq:
  "directions_loop ds acc =
     acc @ map py_strip (filter (\<lambda>t. t \<noteq> [])
        (map (\<lambda>w. case etext w of None \<Rightarrow> [] | Some t \<Rightarrow> t)
           (concat (map (\<lambda>d. findall d [Self, Descendant ''words'']) ds))))"
  by (induction ds arbitrary: acc) (auto simp: words_loop_eq)

lemma directions_loop_texts:
  "directions_loop (findall m [Child ''direction'']) [] = direction_texts m"
  by (simp add: directions_loop_eq direction_texts_def)

lemma direction_texts_carries: "direction_texts m \<noteq> [] \<Longrightarrow> has_direction_text m"
  by (auto simp: direction_texts_def has_direction_text_def has_text_def truthy_def filter_empty_conv
      split: option.splits)

lemma directions_section_eq:
  "directions_section m d =
     (if direction_texts m \<noteq> [] then dict_set ''directions'' (JList (map JStr (direction_texts m))) d
      else d)"
  by (simp add: directions_section_def directions_loop_texts)

lemma wedges_loop_fp:
  "wedges_loop ds acc = Inr r \<Longrightarrow>
     r = acc \<or> (\<exists>d\<in>set ds. findall d [Self, Descendant ''wedge''] \<noteq> [])"
proof (induction ds arbitrary: acc)
  case Nil
  then show ?case by simp
next
  case (Cons d ds)
  from Cons.prems obtain r1 where
    r1: "wedge_loop (findall d [Self, Descendant ''wedge'']) acc = Inr r1"
    and r: "wedges_loop ds r1 = Inr r"
    by (auto simp: and_then_Inr)
  show ?case
  proof (cases "findall d [Self, Descendant ''wedge''] = []")
    case True
    with r1 have "r1 = acc" by simp
    with Cons.IH [OF r] show ?thesis by auto
  next
    case False
    then show ?thesis by auto
  qed
qed

lemma wedges_section_fp:
  assumes "wedges_section m d = Inr d'"
  shows "d' = d \<or> (carries_wedges m \<and> (\<exists>v. d' = dict_set ''wedges'' v d))"
proof -
  from assms obtain ws where ws: "wedges_loop (findall m [Child ''direction'']) [] = Inr ws"
    and d': "d' = (if ws \<noteq> [] then dict_set ''wedges'' (JList ws) d else d)"
    by (auto simp: wedges_section_def and_then_Inr)
  show ?thesis
  proof (cases "ws = []")
    case True
    with d' show ?thesis by simp
  next
    case False
    with wedges_loop_fp [OF ws] have "carries_wedges m" by (auto simp: carries_wedges_def)
    with d' False show ?thesis by auto
  qed
qed

lemma pedals_loop_eq:
  "pedals_loop ds acc =
     acc @ concat (map (\<lambda>d. map pedal_entry (findall d [Self, Descendant ''pedal''])) ds)"
  by (induction ds arbitrary: acc) auto

lemma pedals_section_fp:
  "pedals_section m d = d
     \<or> (carries_pedals m \<and> (\<exists>v. pedals_section m d = dict_set ''pedals'' v d))"
  by (auto simp: pedals_section_def pedals_loop_eq carries_pedals_def Let_def)

lemma dynamics_loop_eq:
  "dynamics_loop ds acc = acc @ concat (map (\<lambda>d. map detag (dynamics_of d)) ds)"
  by (induction ds arbitrary: acc) auto

lemma dynamics_of_carries:
  "dynamics_of d \<noteq> [] \<Longrightarrow> \<exists>y\<in>set (findall d [Self, Descendant ''dynamics'']). children y \<noteq> []"
  by (auto simp: dynamics_of_def split: option.splits if_splits dest: find_Some_in)

lemma dynamics_section_fp:
  "dynamics_section m d = d
     \<or> (carries_dynamics m \<and> (\<exists>v. dynamics_section m d = dict_set ''dynamics'' v d))"
proof (cases "dynamics_loop (findall m [Child ''direction'']) [] = []")
  case True
  then show ?thesis by (simp add: dynamics_section_def)
next
  case False
  then obtain d0 where "d0 \<in> set (findall m [Child ''direction''])" "dynamics_of d0 \<noteq> []"
    by (auto simp: dynamics_loop_eq)
  then have "carries_dynamics m"
    unfolding carries_dynamics_def using dynamics_of_carries [of d0] by blast
  with False show ?thesis by (auto simp: dynamics_section_def Let_def)
qed

lemma dynamics_of_eq:
  "dynamics_of d =
     (case findall d [Self, Descendant ''dynamics''] of [] \<Rightarrow> [] | y # _ \<Rightarrow> children y)"
  by (simp add: dynamics_of_def find_def split: list.splits)

lemma dynamics_loop_marks:
  "dynamics_loop (findall m [Child ''direction'']) [] = map detag (dynamics_marks m)"
  by (simp add: dynamics_loop_eq dynamics_marks_def dynamics_of_eq map_concat comp_def)

lemma dynamics_section_eq:
  "dynamics_section m d =
     (case names_field (dynamics_marks m) of None \<Rightarrow> d | Some v \<Rightarrow> dict_set ''dynamics'' v d)"
  by (simp add: dynamics_section_def dynamics_loop_marks names_field_def comp_def)

lemma notes_loop_length: "notes_loop ns acc = Inr r \<Longrightarrow> length r = length acc + length ns"
  by (induction ns arbitrary: acc) (auto simp: and_then_Inr)

text \<open>The statements of one pass of the measure loop, one after the other.\<close>

lemma build_measure_chain:
  assumes "build_measure m = Inr r"
  obtains n d1 d3 d5 ns where
    "measure_number m = Inr n"
    "key_section m [(''number'', JInt n)] = Inr d1"
    "tempo_loop (iter ''metronome'' m) (time_section m d1) = Inr d3"
    "wedges_section m (directions_section m d3) = Inr d5"
    "notes_loop (findall m [Child ''note'']) [] = Inr ns"
    "r = (if ns \<noteq> [] then dict_set ''notes'' (JList ns)
                              (dynamics_section m (pedals_section m d5))
          else dynamics_section m (pedals_section m d5))"
  using assms by (auto simp: build_measure_def and_then_Inr Let_def)

lemma fp_map_of:
  assumes "d' = d \<or> (c \<and> (\<exists>v. d' = dict_set K v d))"
  shows "\<forall>k. k \<noteq> K \<longrightarrow> map_of d' k = map_of d k" and "map_of d' K \<noteq> map_of d K \<longrightarrow> c"
  using assms by (auto simp: map_of_dict_set)

lemma build_measure_fields:
  assumes "build_measure m = Inr r"
  shows "\<exists>n. measure_number m = Inr n \<and> map_of r ''number'' = Some (JInt n)"
    and "map_of r ''directions'' =
           (if direction_texts m = [] then None
            else Some (JList (map JStr (direction_texts m))))"
    and "\<forall>k. k \<notin> measure_keys \<longrightarrow> map_of r k = None"
    and "map_of r ''key_fifths'' \<noteq> None \<longrightarrow> carries_key m"
    and "map_of r ''time'' \<noteq> None \<longrightarrow> carries_time m"
    and "map_of r ''tempo'' \<noteq> None \<longrightarrow> carries_tempo m"
    and "map_of r ''directions'' \<noteq> None \<longrightarrow> has_direction_text m"
    and "map_of r ''wedges'' \<noteq> None \<longrightarrow> carries_wedges m"
    and "map_of r ''pedals'' \<noteq> None \<longrightarrow> carries_pedals m"
    and "map_of r ''dynamics'' \<noteq> None \<longrightarrow> carries_dynamics m"
    and "map_of r ''notes'' \<noteq> None \<longrightarrow> carries_notes m"
    and "map_of r ''dynamics'' = names_field (dynamics_marks m)"
proof -
  from assms obtain n d1 d3 d5 ns where
    n: "measure_number m = Inr n"
    and k: "key_section m [(''number'', JInt n)] = Inr d1"
    and t: "tempo_loop (iter ''metronome'' m) (time_section m d1) = Inr d3"
    and w: "wedges_section m (directions_section m d3) = Inr d5"
    and nl: "notes_loop (findall m [Child ''note'']) [] = Inr ns"
    and r: "r = (if ns \<noteq> [] then dict_set ''notes'' (JList ns)
                                    (dynamics_section m (pedals_section m d5))
                 else dynamics_section m (pedals_section m d5))"
    by (rule build_measure_chain)
  define d0 :: "(string \<times> json) list" where "d0 = [(''number'', JInt n)]"
  define d2 where "d2 = time_section m d1"
  define d4 where "d4 = directions_section m d3"
  define d6 where "d6 = pedals_section m d5"
  define d7 where "d7 = dynamics_section m d6"
  note s1 = fp_map_of [OF key_section_fp [OF k [folded d0_def]]]
  note s2 = fp_map_of [OF time_section_fp [of m d1, folded d2_def]]
  have "d3 = d2 \<or> (carries_tempo m \<and> (\<exists>v. d3 = dict_set ''tempo'' v d2))"
    using tempo_loop_fp [OF t [folded d2_def]] by (auto simp: carries_tempo_def)
  note s3 = fp_map_of [OF this]
  have d4: "d4 = (if direction_texts m \<noteq> []
                  then dict_set ''directions'' (JList (map JStr (direction_texts m))) d3 else d3)"
    by (simp add: d4_def directions_section_eq)
  then have "d4 = d3 \<or> (has_direction_text m \<and> (\<exists>v. d4 = dict_set ''directions'' v d3))"
    using direction_texts_carries [of m] by auto
  note s4 = fp_map_of [OF this]
  note s5 = fp_map_of [OF wedges_section_fp [OF w [folded d4_def]]]
  note s6 = fp_map_of [OF pedals_section_fp [of m d5, folded d6_def]]
  note s7 = fp_map_of [OF dynamics_section_fp [of m d6, folded d7_def]]
  have r': "r = (if ns \<noteq> [] then dict_set ''notes'' (JList ns) d7 else d7)"
    by (simp add: r d7_def d6_def)
  have "ns \<noteq> [] \<longrightarrow> carries_notes m"
    using notes_loop_length [OF nl] by (auto simp: carries_notes_def)
  with r' have "r = d7 \<or> (carries_notes m \<and> (\<exists>v. r = dict_set ''notes'' v d7))"
    by auto
  note s8 = fp_map_of [OF this]
  have num: "map_of r ''number'' = Some (JInt n)"
    using s1(1) s2(1) s3(1) s4(1) s5(1) s6(1) s7(1) s8(1) by (simp add: d0_def)
  with n show "\<exists>n. measure_number m = Inr n \<and> map_of r ''number'' = Some (JInt n)"
    by blast
  have d3dir: "map_of d3 ''directions'' = None"
    using s1(1) s2(1) s3(1) by (simp add: d0_def)
  have "map_of r ''directions'' = map_of d4 ''directions''"
    using s5(1) s6(1) s7(1) s8(1) by simp
  with d3dir d4 show "map_of r ''directions'' =
           (if direction_texts m = [] then None
            else Some (JList (map JStr (direction_texts m))))"
    by (simp add: map_of_dict_set)
  show "\<forall>k. k \<notin> measure_keys \<longrightarrow> map_of r k = None"
    using s1(1) s2(1) s3(1) s4(1) s5(1) s6(1) s7(1) s8(1)
    by (simp add: d0_def measure_keys_def)
  have "map_of r ''key_fifths'' = map_of d1 ''key_fifths''"
    using s2(1) s3(1) s4(1) s5(1) s6(1) s7(1) s8(1) by simp
  with s1(2) show "map_of r ''key_fifths'' \<noteq> None \<longrightarrow> carries_key m"
    by (simp add: d0_def)
  have "map_of r ''time'' = map_of d2 ''time''" "map_of d1 ''time'' = None"
    using s1(1) s3(1) s4(1) s5(1) s6(1) s7(1) s8(1) by (simp_all add: d0_def)
  with s2(2) show "map_of r ''time'' \<noteq> None \<longrightarrow> carries_time m"
    by simp
  have "map_of r ''tempo'' = map_of d3 ''tempo''" "map_of d2 ''tempo'' = None"
    using s1(1) s2(1) s4(1) s5(1) s6(1) s7(1) s8(1) by (simp_all add: d0_def)
  with s3(2) show "map_of r ''tempo'' \<noteq> None \<longrightarrow> carries_tempo m"
    by simp
  have "map_of r ''directions'' = map_of d4 ''directions''"
    using s5(1) s6(1) s7(1) s8(1) by simp
  with s4(2) d3dir show "map_of r ''directions'' \<noteq> None \<longrightarrow> has_direction_text m"
    by simp
  have "map_of r ''wedges'' = map_of d5 ''wedges''" "map_of d4 ''wedges'' = None"
    using s1(1) s2(1) s3(1) s4(1) s6(1) s7(1) s8(1) by (simp_all add: d0_def)
  with s5(2) show "map_of r ''wedges'' \<noteq> None \<longrightarrow> carries_wedges m"
    by simp
  have "map_of r ''pedals'' = map_of d6 ''pedals''" "map_of d5 ''pedals'' = None"
    using s1(1) s2(1) s3(1) s4(1) s5(1) s7(1) s8(1) by (simp_all add: d0_def)
  with s6(2) show "map_of r ''pedals'' \<noteq> None \<longrightarrow> carries_pedals m"
    by simp
  have "map_of r ''dynamics'' = map_of d7 ''dynamics''" "map_of d6 ''dynamics'' = None"
    using s1(1) s2(1) s3(1) s4(1) s5(1) s6(1) s8(1) by (simp_all add: d0_def)
  with s7(2) show "map_of r ''dynamics'' \<noteq> None \<longrightarrow> carries_dynamics m"
    by simp
  have "map_of d7 ''notes'' = None"
    using s1(1) s2(1) s3(1) s4(1) s5(1) s6(1) s7(1) by (simp add: d0_def)
  with s8(2) show "map_of r ''notes'' \<noteq> None \<longrightarrow> carries_notes m"
    by simp
  have "map_of r ''dynamics'' = map_of d7 ''dynamics''" "map_of d6 ''dynamics'' = None"
    using s1(1) s2(1) s3(1) s4(1) s5(1) s6(1) s8(1) by (simp_all add: d0_def)
  then show "map_of r ''dynamics'' = names_field (dynamics_marks m)"
    by (simp add: d7_def dynamics_section_eq map_of_dict_set split: option.splits)
qed

lemma wedges_loop_none:
  "\<forall>d\<in>set ds. findall d [Self, Descendant ''wedge''] = [] \<Longrightarrow> wedges_loop ds acc = Inr acc"
  by (induction ds arbitrary: acc) (auto simp: and_then_def)

lemma no_music_measure:
  assumes "no_music m"
  shows "build_measure m =
           (case measure_number m of Inl e \<Rightarrow> Inl e | Inr n \<Rightarrow> Inr [(''number'', JInt n)])"
proof -
  from assms have it: "iter ''key'' m = []" "iter ''time'' m = []" "iter ''metronome'' m = []"
    "iter ''dynamics'' m = []" "iter ''words'' m = []" "iter ''wedge'' m = []"
    "iter ''pedal'' m = []" and nn: "findall m [Child ''note''] = []"
    by (simp_all add: no_music_def)
  have k: "key_section m d = Inr d" for d
    using iter_Nil_descendant [OF it(1)] by (simp add: key_section_def find_None_iff [symmetric])
  have t: "time_section m d = d" for d
    using iter_Nil_descendant [OF it(2)] by (simp add: time_section_def find_None_iff [symmetric])
  have "direction_texts m = []"
    using iter_Nil_direction [OF it(5)] by (simp add: direction_texts_def)
  then have di: "directions_section m d = d" for d
    by (simp add: directions_section_eq)
  have "wedges_loop (findall m [Child ''direction'']) [] = Inr []"
    using iter_Nil_direction [OF it(6)] by (intro wedges_loop_none) simp
  then have w: "wedges_section m d = Inr d" for d
    by (simp add: wedges_section_def and_then_def)
  have p: "pedals_section m d = d" for d
    using iter_Nil_direction [OF it(7)] by (simp add: pedals_section_def pedals_loop_eq)
  have "dynamics_of d = []" if "d \<in> set (findall m [Child ''direction''])" for d
    using iter_Nil_direction [OF it(4) that]
    by (simp add: dynamics_of_def find_None_iff [symmetric])
  then have dy: "dynamics_section m d = d" for d
    by (simp add: dynamics_section_def dynamics_loop_eq)
  show ?thesis
    by (simp add: build_measure_def k t di w p dy nn it(3) and_then_def split: sum.splits)
qed

section \<open>What each field of a note depends on\<close>

lemma set_int_field_other:
  "set_int_field K s n = Inr n' \<Longrightarrow> k \<noteq> K \<Longrightarrow> map_of n' k = map_of n k"
  by (auto simp: set_int_field_def and_then_Inr map_of_dict_set split: option.splits if_splits)

lemma note_pitch_other:
  "note_pitch el n = Inr n' \<Longrightarrow> k \<noteq> ''pitch'' \<Longrightarrow> map_of n' k = map_of n k"
  by (auto simp: note_pitch_def Let_def and_then_Inr map_of_dict_set split: if_splits)

lemma note_type_other: "k \<noteq> ''type'' \<Longrightarrow> map_of (note_type el n) k = map_of n k"
  by (simp add: note_type_def map_of_dict_set split: option.splits)

lemma note_dots_other: "k \<noteq> ''dots'' \<Longrightarrow> map_of (note_dots el n) k = map_of n k"
  by (simp add: note_dots_def map_of_dict_set Let_def)

lemma note_chord_other: "k \<noteq> ''chord'' \<Longrightarrow> map_of (note_chord el n) k = map_of n k"
  by (simp add: note_chord_def map_of_dict_set)

lemma note_beam_other: "k \<noteq> ''beam'' \<Longrightarrow> map_of (note_beam el n) k = map_of n k"
  by (simp add: note_beam_def map_of_dict_set Let_def)

lemma note_grace_other: "k \<noteq> ''grace'' \<Longrightarrow> map_of (note_grace el n) k = map_of n k"
  by (simp add: note_grace_def map_of_dict_set)

lemma tie_loop_map:
  "map_of (tie_loop ts n) k =
     (if k = ''tie'' then
        (case filter (\<lambda>t. truthy (elem_get t ''type'')) ts of
           [] \<Rightarrow> map_of n ''tie''
         | t # _ \<Rightarrow> map_option JStr (elem_get t ''type''))
      else map_of n k)"
  by (induction ts) (auto simp: truthy_def map_of_dict_set split: option.splits)

lemma note_artic_other: "k \<noteq> ''artic'' \<Longrightarrow> map_of (note_artic el n) k = map_of n k"
  by (simp add: note_artic_def map_of_dict_set Let_def)

lemma note_ornament_other: "k \<noteq> ''ornament'' \<Longrightarrow> map_of (note_ornament el n) k = map_of n k"
  by (simp add: note_ornament_def map_of_dict_set Let_def)

lemma slur_loop_other: "k \<noteq> ''slur'' \<Longrightarrow> map_of (slur_loop ts n) k = map_of n k"
  by (induction ts) (auto simp: map_of_dict_set split: option.splits)

lemma tuplet_loop_map:
  "map_of (tuplet_loop el ts n) k =
     (if k = ''tuplet'' \<and> (\<exists>t\<in>set ts. elem_get t ''type'' = Some ''start'') then
        (case (read_count el ''actual-notes'', read_count el ''normal-notes'') of
           (Some a, Some b) \<Rightarrow> Some (JStr (a @ '':'' @ b))
         | _ \<Rightarrow> map_of n k)
      else map_of n k)"
  by (induction ts) (auto simp: read_count_def map_of_dict_set split: option.splits)

lemma build_note_chain:
  assumes "build_note el = Inr n"
  obtains n1 n2 n3 where
    "set_int_field ''voice'' (findtext el [Child ''voice''] None) [] = Inr n1"
    "set_int_field ''staff'' (findtext el [Child ''staff''] None) n1 = Inr n2"
    "note_pitch el n2 = Inr n3"
    "n = note_tuplet el (note_slur el (note_ornament el (note_artic el (note_tie el
           (note_grace el (note_beam el (note_chord el (note_dots el (note_type el n3)))))))))"
  using assms by (auto simp: build_note_def Let_def and_then_Inr)

lemma build_note_tie:
  assumes "build_note el = Inr n"
  shows "map_of n ''tie'' =
     (case typed_ties el of [] \<Rightarrow> None | t # _ \<Rightarrow> map_option JStr (elem_get t ''type''))"
proof -
  from assms obtain n1 n2 n3 where
    a: "set_int_field ''voice'' (findtext el [Child ''voice''] None) [] = Inr n1"
    and b: "set_int_field ''staff'' (findtext el [Child ''staff''] None) n1 = Inr n2"
    and c: "note_pitch el n2 = Inr n3"
    and n: "n = note_tuplet el (note_slur el (note_ornament el (note_artic el (note_tie el
           (note_grace el (note_beam el (note_chord el (note_dots el (note_type el n3)))))))))"
    by (rule build_note_chain)
  have "map_of n3 ''tie'' = None"
    using set_int_field_other [OF a, of "''tie''"] set_int_field_other [OF b, of "''tie''"]
      note_pitch_other [OF c, of "''tie''"] by simp
  then show ?thesis
    by (simp add: n note_tuplet_def tuplet_loop_map note_slur_def slur_loop_other
        note_ornament_other note_artic_other note_tie_def tie_loop_map note_grace_other
        note_beam_other note_chord_other note_dots_other note_type_other typed_ties_def
        split: list.splits)
qed

lemma build_note_tuplet:
  assumes "build_note el = Inr n"
  shows "map_of n ''tuplet'' =
     (if tuplet_start el then
        (case (read_count el ''actual-notes'', read_count el ''normal-notes'') of
           (Some a, Some b) \<Rightarrow> Some (JStr (a @ '':'' @ b))
         | _ \<Rightarrow> None)
      else None)"
proof -
  from assms obtain n1 n2 n3 where
    a: "set_int_field ''voice'' (findtext el [Child ''voice''] None) [] = Inr n1"
    and b: "set_int_field ''staff'' (findtext el [Child ''staff''] None) n1 = Inr n2"
    and c: "note_pitch el n2 = Inr n3"
    and n: "n = note_tuplet el (note_slur el (note_ornament el (note_artic el (note_tie el
           (note_grace el (note_beam el (note_chord el (note_dots el (note_type el n3)))))))))"
    by (rule build_note_chain)
  have "map_of n3 ''tuplet'' = None"
    using set_int_field_other [OF a, of "''tuplet''"] set_int_field_other [OF b, of "''tuplet''"]
      note_pitch_other [OF c, of "''tuplet''"] by simp
  then show ?thesis
    by (simp add: n note_tuplet_def tuplet_loop_map note_slur_def slur_loop_other
        note_ornament_other note_artic_other note_tie_def tie_loop_map note_grace_other
        note_beam_other note_chord_other note_dots_other note_type_other tuplet_start_def
        split: option.splits)
qed

section \<open>The shape of the score\<close>

lemma creator_loop_shape:
  "creator_loop cs [(''_schema'', x), (''title'', t), (''composer'', c), (''arranger'', a)] =
     [(''_schema'', x), (''title'', t),
      (''composer'', (case filter (\<lambda>e. elem_get e ''type'' = Some ''composer'') cs of
                        [] \<Rightarrow> c | e # es \<Rightarrow> opt_str (etext (last (e # es))))),
      (''arranger'', (case filter (\<lambda>e. elem_get e ''type'' = Some ''arranger'') cs of
                        [] \<Rightarrow> a | e # es \<Rightarrow> opt_str (etext (last (e # es)))))]"
proof (induction cs arbitrary: c a)
  case Nil
  show ?case by simp
next
  case (Cons e cs)
  show ?case
    by (cases "elem_get e ''type''") (auto simp: Cons.IH Let_def split: list.splits)
qed

lemma score_title_absent:
  assumes "findall root_el [Child ''work'', Child ''work-title''] = []"
    and "findall root_el [Child ''movement-title''] = []"
  shows "score_title root_el = None"
  using assms
  by (simp add: score_title_def findtext_def find_def truthy_def)

lemma build_json_shape:
  assumes "build_json root_el = Inr score"
  shows "\<exists>ms. score =
     [(''_schema'', JStr SCHEMA), (''title'', opt_str (score_title root_el)),
      (''composer'', (case creators root_el ''composer'' of
                        [] \<Rightarrow> JNull | e # es \<Rightarrow> opt_str (etext (last (e # es))))),
      (''arranger'', (case creators root_el ''arranger'' of
                        [] \<Rightarrow> JNull | e # es \<Rightarrow> opt_str (etext (last (e # es))))),
      (''measures'', JList ms)]"
  using assms
  by (auto simp: build_json_def Let_def creator_loop_shape creators_def and_then_Inr)

section \<open>Namespace prefixes\<close>

lemma split_char_nonempty: "split_char sep s \<noteq> []"
  by (induction s) (auto split: list.splits)

lemma last_split_char_no_sep: "sep \<notin> set (last (split_char sep s))"
proof (induction s)
  case Nil
  show ?case by simp
next
  case (Cons c s)
  then show ?case
    using split_char_nonempty [of sep s] by (auto split: list.splits)
qed

lemma detag_no_brace: "CHR ''}'' \<notin> set (detag el)"
  by (simp add: detag_def Let_def last_split_char_no_sep)

lemma tag_unqualify: "tag (unqualify el) = detag el"
  by (cases el) simp

lemma detag_unqualify: "detag (unqualify el) = detag el"
proof -
  have "detag (unqualify el) = tag (unqualify el)"
    using detag_no_brace [of el] by (simp add: detag_def Let_def tag_unqualify)
  then show ?thesis by (simp add: tag_unqualify)
qed

lemma strip_attributes_unqualify:
  "strip_attributes (unqualify el) = unqualify (strip_attributes el)"
  by (cases el) (simp add: strip_attributes_filter detag_def)

lemma strip_unqualify_mutual:
  "strip_tree (unqualify el) = unqualify (strip_tree el)"
  "strip_children (map unqualify els) = map unqualify (strip_children els)"
proof (induction el and els rule: strip_tree_strip_children.induct)
  case (1 t a x cs)
  then show ?case by (simp add: detag_def)
next
  case 2
  show ?case by simp
next
  case (3 child rest)
  then show ?case
    by (simp add: detag_unqualify strip_attributes_unqualify)
qed

lemma strip_document_unqualify: "strip_document (unqualify t) = unqualify (strip_document t)"
  by (simp add: strip_document_def strip_attributes_unqualify strip_unqualify_mutual(1))

section \<open>Numbers and their texts\<close>

lemma bit_length_bounds:
  "0 < n \<Longrightarrow> 2 ^ (bit_length n - 1) \<le> n \<and> n < 2 ^ bit_length n"
proof (induction n rule: bit_length.induct)
  case (1 n)
  show ?case
  proof (cases "n div 2 = 0")
    case True
    with "1.prems" have "n = 1" by (cases n) auto
    then show ?thesis by (simp add: bit_length.simps)
  next
    case False
    then have pos: "0 < n div 2" by simp
    from "1.prems" have n0: "n \<noteq> 0" by simp
    from "1.IH" [OF n0 pos] have lo: "2 ^ (bit_length (n div 2) - 1) \<le> n div 2"
      and hi: "n div 2 < 2 ^ bit_length (n div 2)" by simp_all
    have bl: "bit_length n = Suc (bit_length (n div 2))"
      using n0 by (subst bit_length.simps) simp
    have blpos: "0 < bit_length (n div 2)"
      using pos by (subst bit_length.simps) simp
    from blpos obtain j where j: "bit_length (n div 2) = Suc j" by (cases "bit_length (n div 2)") auto
    from lo j have "2 * 2 ^ j \<le> 2 * (n div 2)" by simp
    also have "\<dots> \<le> n" by simp
    finally have l: "2 ^ (bit_length n - 1) \<le> n" by (simp add: bl j)
    from hi have "n div 2 + 1 \<le> 2 ^ bit_length (n div 2)" by simp
    then have "2 * (n div 2) + 2 \<le> 2 * 2 ^ bit_length (n div 2)" by simp
    moreover have "n < 2 * (n div 2) + 2" by presburger
    ultimately have "n < 2 ^ bit_length n" by (simp add: bl)
    with l show ?thesis by simp
  qed
qed

lemma floor_log2_overflow:
  assumes d: "0 < d" and big: "d * 2 ^ 1024 \<le> n"
  shows "1024 \<le> floor_log2 n d"
proof -
  from d big have n: "0 < n"
    by (metis gr0I mult_eq_0_iff nat_less_le not_less power_eq_0_iff zero_neq_numeral)
  have dlo: "2 ^ (bit_length d - 1) \<le> d" using bit_length_bounds [OF d] by simp
  have nhi: "n < 2 ^ bit_length n" using bit_length_bounds [OF n] by simp
  have "(2::nat) ^ (bit_length d - 1 + 1024) = 2 ^ (bit_length d - 1) * 2 ^ 1024"
    by (simp only: power_add)
  also have "\<dots> \<le> d * 2 ^ 1024" using dlo by simp
  also have "\<dots> \<le> n" by (rule big)
  also have "\<dots> < 2 ^ bit_length n" by (rule nhi)
  finally have "bit_length d - 1 + 1024 < bit_length n"
    by (simp only: power_strict_increasing_iff [of 2] one_less_numeral_iff semiring_norm)
  moreover have "0 < bit_length d" using d by (subst bit_length.simps) simp
  ultimately have k: "1024 \<le> int (bit_length n) - int (bit_length d)" by linarith
  show ?thesis
  proof (cases "1025 \<le> int (bit_length n) - int (bit_length d)")
    case True
    then show ?thesis by (simp add: floor_log2_def Let_def)
  next
    case False
    with k have e: "int (bit_length n) - int (bit_length d) = 1024" by simp
    with big show ?thesis by (simp add: floor_log2_def Let_def)
  qed
qed

lemma to_double_overflow:
  "0 < d \<Longrightarrow> d * 2 ^ 1024 \<le> n \<Longrightarrow> to_double neg n d = (if neg then NegInf else PosInf)"
  using floor_log2_overflow [of d n] by (auto simp: to_double_def Let_def)

lemma parse_1e400: "parse_decimal ''1e400'' = Some (1, 400)"
  by code_simp

lemma float_1e400: "py_float ''1e400'' = Inr PosInf"
proof -
  have "(1::nat) * 2 ^ 1024 \<le> 1 * 10 ^ nat 400" by simp
  then have "to_double False (1 * 10 ^ nat 400) 1 = PosInf"
    by (subst to_double_overflow) simp_all
  moreover have "split_sign (num_strip (filter (\<lambda>c. c \<noteq> CHR ''_'') ''1e400'')) = (False, ''1e400'')"
    "map lower_ascii ''1e400'' = ''1e400''" "CHR ''_'' \<notin> set ''1e400''"
    by code_simp+
  ultimately show ?thesis
    by (simp add: py_float_def parse_1e400 del: power_numeral)
qed

lemma digits_value_snoc: "digits_value (ds @ [c]) = 10 * digits_value ds + (of_char c - 48)"
  by (simp add: digits_value_def)

lemma digits_value_str_nat: "digits_value (str_nat n) = n"
proof (induction n rule: str_nat.induct)
  case (1 n)
  show ?case
  proof (cases "n < 10")
    case True
    then show ?thesis
      by (subst str_nat.simps) (simp add: digits_value_def)
  next
    case False
    with 1 have "digits_value (str_nat (n div 10)) = n div 10" by simp
    with False show ?thesis
      by (subst str_nat.simps) (simp add: digits_value_snoc)
  qed
qed

lemma str_nat_digits: "list_all is_digit (str_nat n)"
proof (induction n rule: str_nat.induct)
  case (1 n)
  show ?case
  proof (cases "n < 10")
    case True
    then show ?thesis
      by (subst str_nat.simps) (simp add: is_digit_def)
  next
    case False
    with 1 have "list_all is_digit (str_nat (n div 10))" by simp
    with False show ?thesis
      by (subst str_nat.simps) (simp add: is_digit_def)
  qed
qed

lemma str_nat_no_minus: "str_nat n \<noteq> CHR ''-'' # s"
proof
  assume "str_nat n = CHR ''-'' # s"
  with str_nat_digits [of n] have "is_digit CHR ''-''" by simp
  then show False by (simp add: is_digit_def)
qed

lemma py_str_inject: "py_str i = py_str j \<Longrightarrow> i = j"
proof -
  assume eq: "py_str i = py_str j"
  show ?thesis
  proof (cases "i < 0"; cases "j < 0")
    assume "i < 0" "j < 0"
    with eq have "str_nat (nat (- i)) = str_nat (nat (- j))" by (simp add: py_str_def)
    then have "digits_value (str_nat (nat (- i))) = digits_value (str_nat (nat (- j)))" by simp
    with \<open>i < 0\<close> \<open>j < 0\<close> show ?thesis by (simp add: digits_value_str_nat)
  next
    assume "i < 0" "\<not> j < 0"
    with eq have "str_nat (nat j) = CHR ''-'' # str_nat (nat (- i))" by (simp add: py_str_def)
    with str_nat_no_minus show ?thesis by blast
  next
    assume "\<not> i < 0" "j < 0"
    with eq have "str_nat (nat i) = CHR ''-'' # str_nat (nat (- j))" by (simp add: py_str_def)
    with str_nat_no_minus show ?thesis by blast
  next
    assume "\<not> i < 0" "\<not> j < 0"
    with eq have "digits_value (str_nat (nat i)) = digits_value (str_nat (nat j))"
      by (simp add: py_str_def)
    with \<open>\<not> i < 0\<close> \<open>\<not> j < 0\<close> show ?thesis by (simp add: digits_value_str_nat)
  qed
qed

lemma py_str_small:
  "py_str 2 = ''2''" "py_str 1 = ''1''" "py_str 0 = ''0''" "py_str (- 1) = ''-1''"
  "py_str (- 2) = ''-2''"
  by code_simp+

section \<open>Pitch names\<close>

lemma accidentals_lookup:
  "(case map_of ACCIDENTALS (py_str i) of None \<Rightarrow> [] | Some a \<Rightarrow> a) = accidental_symbol i"
proof -
  have ne: "py_str i \<noteq> py_str j" if "i \<noteq> j" for j
    using that py_str_inject by blast
  consider "i = 2" | "i = 1" | "i = 0" | "i = - 1" | "i = - 2"
    | "i \<noteq> 2" "i \<noteq> 1" "i \<noteq> 0" "i \<noteq> - 1" "i \<noteq> - 2"
    by blast
  then show ?thesis
  proof cases
    case 6
    then have "py_str i \<noteq> ''2''" "py_str i \<noteq> ''1''" "py_str i \<noteq> ''0''"
      "py_str i \<noteq> ''-1''" "py_str i \<noteq> ''-2''"
      using ne [of 2] ne [of 1] ne [of 0] ne [of "- 1"] ne [of "- 2"]
      by (simp_all add: py_str_small)
    with 6 show ?thesis
      by (simp add: ACCIDENTALS_def accidental_symbol_def)
  qed (simp_all add: ACCIDENTALS_def accidental_symbol_def py_str_small)
qed

text \<open>What \<open>pitch_name\<close> renders, and when it raises.\<close>

lemma pitch_name_render:
  "pitch_name (Some p) =
     (case and_then (py_float (py_strip (text_or p [Child ''alter''] ''0''))) py_round of
        Inl OverflowError \<Rightarrow> Inl OverflowError
      | Inl ValueError \<Rightarrow>
          Inr (Some (text_or p [Child ''step''] [] @ text_or p [Child ''octave''] []))
      | Inr i \<Rightarrow>
          Inr (Some (text_or p [Child ''step''] [] @ accidental_symbol i
                     @ text_or p [Child ''octave''] [])))"
  using accidentals_lookup
  by (simp add: pitch_name_def alter_key_def Let_def and_then_def ACCIDENTALS_def
      split: sum.splits error.splits)

section \<open>When a record is produced\<close>

lemma succeeds_iff: "succeeds r \<longleftrightarrow> (\<exists>v. r = Inr v)"
  by (cases r) (simp_all add: succeeds_def)

lemma set_int_field_succeeds: "(\<exists>n'. set_int_field K s n = Inr n') \<longleftrightarrow> readable_int s"
  by (cases "case s of None \<Rightarrow> Inr 0 | Some t \<Rightarrow> py_int t")
     (auto simp: set_int_field_def readable_int_def succeeds_iff and_then_def
           split: option.splits sum.splits)

lemma note_pitch_succeeds:
  "(\<exists>n'. note_pitch el n = Inr n') \<longleftrightarrow>
     (findall el [Child ''rest''] \<noteq> [] \<or> findall el [Child ''pitch''] = []
      \<or> succeeds (pitch_name (find el [Child ''pitch''])))"
proof (cases "findall el [Child ''rest''] = []")
  case True
  then have r: "find el [Child ''rest''] = None" by (simp add: find_None_iff)
  show ?thesis
  proof (cases "findall el [Child ''pitch''] = []")
    case True
    then have "find el [Child ''pitch''] = None" by (simp add: find_None_iff)
    with r True show ?thesis by (simp add: note_pitch_def)
  next
    case False
    then have "find el [Child ''pitch''] \<noteq> None" by (simp add: find_None_iff)
    with r False \<open>findall el [Child ''rest''] = []\<close> show ?thesis
      by (cases "pitch_name (find el [Child ''pitch''])")
         (simp_all add: note_pitch_def succeeds_def and_then_def)
  qed
next
  case False
  then have "find el [Child ''rest''] \<noteq> None" by (simp add: find_None_iff)
  with False show ?thesis by (simp add: note_pitch_def)
qed

lemma build_note_succeeds: "(\<exists>n. build_note el = Inr n) \<longleftrightarrow> note_ok el"
proof
  assume "\<exists>n. build_note el = Inr n"
  then obtain n where "build_note el = Inr n" ..
  then obtain n1 n2 n3 where
    "set_int_field ''voice'' (findtext el [Child ''voice''] None) [] = Inr n1"
    "set_int_field ''staff'' (findtext el [Child ''staff''] None) n1 = Inr n2"
    "note_pitch el n2 = Inr n3"
    by (rule build_note_chain)
  then show "note_ok el"
    using set_int_field_succeeds [of "''voice''" "findtext el [Child ''voice''] None" "[]"]
      set_int_field_succeeds [of "''staff''" "findtext el [Child ''staff''] None" n1]
      note_pitch_succeeds [of el n2]
    unfolding note_ok_def by blast
next
  assume ok: "note_ok el"
  then obtain n1 where
    n1: "set_int_field ''voice'' (findtext el [Child ''voice''] None) [] = Inr n1"
    using set_int_field_succeeds [of "''voice''" "findtext el [Child ''voice''] None" "[]"]
    unfolding note_ok_def by blast
  from ok obtain n2 where
    n2: "set_int_field ''staff'' (findtext el [Child ''staff''] None) n1 = Inr n2"
    using set_int_field_succeeds [of "''staff''" "findtext el [Child ''staff''] None" n1]
    unfolding note_ok_def by blast
  from ok obtain n3 where n3: "note_pitch el n2 = Inr n3"
    using note_pitch_succeeds [of el n2] unfolding note_ok_def by blast
  from n1 n2 n3 show "\<exists>n. build_note el = Inr n"
    by (simp add: build_note_def Let_def and_then_def)
qed

lemma build_note_fails: "\<not> note_ok el \<Longrightarrow> \<exists>e. build_note el = Inl e"
  using build_note_succeeds [of el] by (cases "build_note el") auto

lemma build_note_names:
  assumes "build_note el = Inr n"
  shows "map_of n ''artic'' = names_field (findall el [Self, Descendant ''articulations'', Star])"
    and "map_of n ''ornament'' = names_field (findall el [Self, Descendant ''ornaments'', Star])"
proof -
  from assms obtain n1 n2 n3 where
    a: "set_int_field ''voice'' (findtext el [Child ''voice''] None) [] = Inr n1"
    and b: "set_int_field ''staff'' (findtext el [Child ''staff''] None) n1 = Inr n2"
    and c: "note_pitch el n2 = Inr n3"
    and n: "n = note_tuplet el (note_slur el (note_ornament el (note_artic el (note_tie el
           (note_grace el (note_beam el (note_chord el (note_dots el (note_type el n3)))))))))"
    by (rule build_note_chain)
  have "map_of n3 ''artic'' = None"
    using set_int_field_other [OF a, of "''artic''"] set_int_field_other [OF b, of "''artic''"]
      note_pitch_other [OF c, of "''artic''"] by simp
  then show "map_of n ''artic'' =
      names_field (findall el [Self, Descendant ''articulations'', Star])"
    by (simp add: n note_tuplet_def tuplet_loop_map note_slur_def slur_loop_other
        note_ornament_other note_artic_def Let_def map_of_dict_set note_tie_def tie_loop_map
        note_grace_other note_beam_other note_chord_other note_dots_other note_type_other
        names_field_def comp_def)
  have "map_of n3 ''ornament'' = None"
    using set_int_field_other [OF a, of "''ornament''"]
      set_int_field_other [OF b, of "''ornament''"]
      note_pitch_other [OF c, of "''ornament''"] by simp
  then show "map_of n ''ornament'' =
      names_field (findall el [Self, Descendant ''ornaments'', Star])"
    by (simp add: n note_tuplet_def tuplet_loop_map note_slur_def slur_loop_other
        note_ornament_def Let_def map_of_dict_set note_artic_other note_tie_def tie_loop_map
        note_grace_other note_beam_other note_chord_other note_dots_other note_type_other
        names_field_def comp_def)
qed

lemma notes_loop_ok: "list_all note_ok ns \<Longrightarrow> \<exists>r. notes_loop ns acc = Inr r"
proof (induction ns arbitrary: acc)
  case Nil
  show ?case by simp
next
  case (Cons el ns)
  then obtain n where "build_note el = Inr n"
    using build_note_succeeds [of el] by auto
  with Cons show ?case by (simp add: and_then_def)
qed

lemma measure_number_ok: "number_ok m \<Longrightarrow> \<exists>n. measure_number m = Inr n"
  by (auto simp: number_ok_def measure_number_def succeeds_iff split: option.splits)

lemma key_section_ok: "key_ok m \<Longrightarrow> \<exists>d'. key_section m d = Inr d'"
  by (auto simp: key_ok_def key_section_def find_def findtext_def succeeds_iff and_then_def
           split: list.splits option.splits)

lemma tempo_loop_ok:
  assumes "case filter (\<lambda>t. t \<noteq> [])
             (map (\<lambda>mt. case findtext mt [Child ''per-minute''] None of
                          None \<Rightarrow> [] | Some t \<Rightarrow> t) ms) of
        [] \<Rightarrow> True
      | t # _ \<Rightarrow> succeeds (and_then (py_float t) int_of_float)"
  shows "\<exists>d'. tempo_loop ms d = Inr d'"
  using assms
  by (induction ms) (auto simp: succeeds_iff and_then_def split: option.splits)

lemma wedge_entry_ok: "readable_int (elem_get w ''number'') \<Longrightarrow> \<exists>j. wedge_entry w = Inr j"
  by (auto simp: wedge_entry_def readable_int_def succeeds_iff and_then_def Let_def
           split: option.splits)

lemma wedge_loop_ok:
  "\<forall>w\<in>set ws. readable_int (elem_get w ''number'') \<Longrightarrow> \<exists>r. wedge_loop ws acc = Inr r"
proof (induction ws arbitrary: acc)
  case Nil
  show ?case by simp
next
  case (Cons w ws)
  then obtain j where "wedge_entry w = Inr j"
    using wedge_entry_ok [of w] by auto
  with Cons show ?case by (simp add: and_then_def)
qed

lemma wedges_loop_ok:
  "\<forall>d\<in>set ds. \<forall>w\<in>set (findall d [Self, Descendant ''wedge'']).
      readable_int (elem_get w ''number'') \<Longrightarrow> \<exists>r. wedges_loop ds acc = Inr r"
proof (induction ds arbitrary: acc)
  case Nil
  show ?case by simp
next
  case (Cons d ds)
  then obtain r1 where "wedge_loop (findall d [Self, Descendant ''wedge'']) acc = Inr r1"
    using wedge_loop_ok [of "findall d [Self, Descendant ''wedge'']" acc] by auto
  with Cons show ?case by (simp add: and_then_def)
qed

lemma wedges_section_ok: "wedges_ok m \<Longrightarrow> \<exists>d'. wedges_section m d = Inr d'"
  using wedges_loop_ok [of "findall m [Child ''direction'']" "[]"]
  by (auto simp: wedges_ok_def wedges_section_def and_then_def)

lemma build_measure_ok:
  assumes "measure_ok m"
  shows "\<exists>r. build_measure m = Inr r"
proof -
  from assms obtain n where n: "measure_number m = Inr n"
    using measure_number_ok [of m] by (auto simp: measure_ok_def)
  from assms obtain d1 where d1: "key_section m [(''number'', JInt n)] = Inr d1"
    using key_section_ok [of m] unfolding measure_ok_def by blast
  from assms obtain d3 where
    d3: "tempo_loop (iter ''metronome'' m) (time_section m d1) = Inr d3"
    using tempo_loop_ok [of "iter ''metronome'' m" "time_section m d1"]
    unfolding measure_ok_def tempo_ok_def by blast
  from assms obtain d5 where d5: "wedges_section m (directions_section m d3) = Inr d5"
    using wedges_section_ok [of m] unfolding measure_ok_def by blast
  from assms obtain ns where ns: "notes_loop (findall m [Child ''note'']) [] = Inr ns"
    using notes_loop_ok [of "findall m [Child ''note'']" "[]"] unfolding measure_ok_def by blast
  from n d1 d3 d5 ns show ?thesis
    by (simp add: build_measure_def and_then_def Let_def)
qed

section \<open>Element names in the output\<close>

lemma names_field_unqualify: "names_field (map unqualify els) = names_field els"
  by (simp add: names_field_def detag_unqualify comp_def)

section \<open>The measure record\<close>

text \<open>
  C1, as the code has it. A measure with no key, time, metronome, dynamics, words, wedge
  or pedal element and no note child gives a record whose only field is its number when
  the number attribute is absent (the number is then 0) or is an integer literal; with
  any other number attribute it raises the error of \<open>int\<close> and gives no record. A measure
  whose numbers are all readable gives a record. Every record has the number, no key
  outside the nine of a measure, and each optional field only if the measure carries it;
  for the directions field, only if a words element inside a direction child of the
  measure has a text that is not empty, a text of white space only included.
\<close>

theorem sparse_measure_fields:
  "(no_music m \<longrightarrow>
      build_measure m =
        (case elem_get m ''number'' of
           None \<Rightarrow> Inr [(''number'', JInt 0)]
         | Some s \<Rightarrow>
             (case py_int s of Inl e \<Rightarrow> Inl e | Inr n \<Rightarrow> Inr [(''number'', JInt n)])))
   \<and> (measure_ok m \<longrightarrow> (\<exists>r. build_measure m = Inr r))
   \<and> (\<forall>r. build_measure m = Inr r \<longrightarrow>
         fst ` set r \<subseteq> measure_keys \<and> ''number'' \<in> fst ` set r
         \<and> (''key_fifths'' \<in> fst ` set r \<longrightarrow> carries_key m)
         \<and> (''time'' \<in> fst ` set r \<longrightarrow> carries_time m)
         \<and> (''tempo'' \<in> fst ` set r \<longrightarrow> carries_tempo m)
         \<and> (''dynamics'' \<in> fst ` set r \<longrightarrow> carries_dynamics m)
         \<and> (''directions'' \<in> fst ` set r \<longrightarrow> has_direction_text m)
         \<and> (''wedges'' \<in> fst ` set r \<longrightarrow> carries_wedges m)
         \<and> (''pedals'' \<in> fst ` set r \<longrightarrow> carries_pedals m)
         \<and> (''notes'' \<in> fst ` set r \<longrightarrow> carries_notes m))"
proof (intro conjI allI impI)
  assume "no_music m"
  then have "build_measure m =
      (case measure_number m of Inl e \<Rightarrow> Inl e | Inr n \<Rightarrow> Inr [(''number'', JInt n)])"
    by (rule no_music_measure)
  then show "build_measure m =
      (case elem_get m ''number'' of
         None \<Rightarrow> Inr [(''number'', JInt 0)]
       | Some s \<Rightarrow>
           (case py_int s of Inl e \<Rightarrow> Inl e | Inr n \<Rightarrow> Inr [(''number'', JInt n)]))"
    by (simp add: measure_number_def split: option.splits)
next
  assume "measure_ok m"
  then show "\<exists>r. build_measure m = Inr r" by (rule build_measure_ok)
next
  fix r assume r: "build_measure m = Inr r"
  show "fst ` set r \<subseteq> measure_keys"
    using build_measure_fields(3) [OF r] key_in_dict [of _ r] by blast
  show "''number'' \<in> fst ` set r"
    using build_measure_fields(1) [OF r] by (auto simp: key_in_dict)
  show "carries_key m" if "''key_fifths'' \<in> fst ` set r"
    using that build_measure_fields(4) [OF r] by (simp add: key_in_dict)
  show "carries_time m" if "''time'' \<in> fst ` set r"
    using that build_measure_fields(5) [OF r] by (simp add: key_in_dict)
  show "carries_tempo m" if "''tempo'' \<in> fst ` set r"
    using that build_measure_fields(6) [OF r] by (simp add: key_in_dict)
  show "carries_dynamics m" if "''dynamics'' \<in> fst ` set r"
    using that build_measure_fields(10) [OF r] by (simp add: key_in_dict)
  show "has_direction_text m" if "''directions'' \<in> fst ` set r"
    using that build_measure_fields(7) [OF r] by (simp add: key_in_dict)
  show "carries_wedges m" if "''wedges'' \<in> fst ` set r"
    using that build_measure_fields(8) [OF r] by (simp add: key_in_dict)
  show "carries_pedals m" if "''pedals'' \<in> fst ` set r"
    using that build_measure_fields(9) [OF r] by (simp add: key_in_dict)
  show "carries_notes m" if "''notes'' \<in> fst ` set r"
    using that build_measure_fields(11) [OF r] by (simp add: key_in_dict)
qed

theorem sparse_measure_fields_witness:
  "no_music ex_bare \<and> build_measure ex_bare = Inr [(''number'', JInt 7)]
   \<and> no_music ex_unnumbered \<and> build_measure ex_unnumbered = Inr [(''number'', JInt 0)]
   \<and> measure_ok ex_keyed
   \<and> (\<exists>r. build_measure ex_keyed = Inr r
          \<and> fst ` set r = {''number'', ''key_fifths'', ''notes''})
   \<and> carries_key ex_keyed \<and> carries_notes ex_keyed"
proof -
  have nb: "no_music ex_bare" and nu: "no_music ex_unnumbered" and ok: "measure_ok ex_keyed"
    by code_simp+
  have "elem_get ex_bare ''number'' = Some ''7''" "py_int ''7'' = Inr 7"
    "elem_get ex_unnumbered ''number'' = None"
    by code_simp+
  with sparse_measure_fields [of ex_bare] sparse_measure_fields [of ex_unnumbered] nb nu
  have a: "build_measure ex_bare = Inr [(''number'', JInt 7)]"
    "build_measure ex_unnumbered = Inr [(''number'', JInt 0)]"
    by simp_all
  from sparse_measure_fields [of ex_keyed] ok obtain r where r: "build_measure ex_keyed = Inr r"
    by blast
  moreover have "build_measure ex_keyed =
      Inr [(''number'', JInt 2), (''key_fifths'', JInt (- 5)),
           (''notes'', JList [JDict [(''pitch'', JStr ''rest'')]])]"
    by code_simp
  ultimately have k: "fst ` set r = {''number'', ''key_fifths'', ''notes''}"
    by auto
  with sparse_measure_fields [of ex_keyed] r
  have "carries_key ex_keyed" "carries_notes ex_keyed"
    by simp_all
  with nb nu ok a r k show ?thesis by blast
qed

theorem sparse_measure_counterexample:
  "no_music ex_bare_implicit \<and> build_measure ex_bare_implicit = Inl ValueError
   \<and> \<not> carries_directions ex_blank_words
   \<and> build_measure ex_blank_words =
       Inr [(''number'', JInt 1), (''directions'', JList [JStr ''''])]"
  by code_simp

text \<open>
  C6, as the code has it: without a number attribute the number is 0; with an attribute
  that \<open>int\<close> accepts it is that integer; with any other attribute the measure raises the
  error of \<open>int\<close> and no record is produced.
\<close>

theorem measure_number_field:
  "(case elem_get m ''number'' of
      None \<Rightarrow> (\<forall>r. build_measure m = Inr r \<longrightarrow> map_of r ''number'' = Some (JInt 0))
    | Some s \<Rightarrow>
        (case py_int s of
           Inl e \<Rightarrow> build_measure m = Inl e
         | Inr i \<Rightarrow> (\<forall>r. build_measure m = Inr r \<longrightarrow> map_of r ''number'' = Some (JInt i))))"
proof (cases "elem_get m ''number''")
  case None
  then have "measure_number m = Inr 0" by (simp add: measure_number_def)
  with None show ?thesis using build_measure_fields(1) [of m] by auto
next
  case (Some s)
  then have mn: "measure_number m = py_int s" by (simp add: measure_number_def)
  show ?thesis
  proof (cases "py_int s")
    case (Inl e)
    with mn have "build_measure m = Inl e" by (simp add: build_measure_def and_then_def)
    with Some Inl show ?thesis by simp
  next
    case (Inr i)
    with mn Some show ?thesis using build_measure_fields(1) [of m] by auto
  qed
qed

theorem measure_number_field_witness:
  "(\<exists>r. build_measure ex_bare = Inr r \<and> map_of r ''number'' = Some (JInt 7))
   \<and> (\<exists>r. build_measure ex_unnumbered = Inr r \<and> map_of r ''number'' = Some (JInt 0))"
proof -
  have a: "elem_get ex_bare ''number'' = Some ''7''" "py_int ''7'' = Inr 7"
    "build_measure ex_bare = Inr [(''number'', JInt 7)]" by code_simp+
  have b: "elem_get ex_unnumbered ''number'' = None"
    "build_measure ex_unnumbered = Inr [(''number'', JInt 0)]" by code_simp+
  from measure_number_field [of ex_bare] a
  have "map_of [(''number'', JInt 7)] ''number'' = Some (JInt 7)" by simp
  moreover from measure_number_field [of ex_unnumbered] b
  have "map_of [(''number'', JInt 0)] ''number'' = Some (JInt 0)" by simp
  ultimately show ?thesis using a(3) b(2) by simp
qed

theorem measure_number_counterexample: "build_json ex_implicit = Inl ValueError"
  by code_simp

text \<open>
  C7, as the code has it: the directions field lists the stripped texts of the words
  elements inside the directions that are children of the measure, in document order,
  leaving out the elements without a text or with an empty one; a text of white space
  only gives an empty string in the list. The field is omitted when the list is empty.
\<close>

theorem directions_field:
  "build_measure m = Inr r \<Longrightarrow>
     map_of r ''directions'' =
       (if direction_texts m = [] then None else Some (JList (map JStr (direction_texts m))))"
  by (rule build_measure_fields(2))

theorem directions_field_witness:
  "map_of [(''number'', JInt 1), (''directions'', JList [JStr ''cresc.''])] ''directions''
     = Some (JList (map JStr (direction_texts ex_words)))
   \<and> direction_texts ex_words = [''cresc.'']"
proof -
  have a: "build_measure ex_words =
      Inr [(''number'', JInt 1), (''directions'', JList [JStr ''cresc.''])]"
    and b: "direction_texts ex_words = [''cresc.'']"
    by code_simp+
  from directions_field [OF a] b show ?thesis by simp
qed

theorem directions_counterexample:
  "build_measure ex_blank_words = Inr [(''number'', JInt 1), (''directions'', JList [JStr ''''])]"
  by code_simp

section \<open>The note record\<close>

text \<open>
  C4, as the code has it. A note whose voice and staff texts are empty or integer
  literals and whose pitch is decoded gives a record, and the tuplet field of that record
  is there if and only if a tuplet of type \<open>start\<close> is found anywhere below the note and
  both the actual-notes and the normal-notes count can be read from the note; it is then
  \<open>actual:normal\<close>. Any other note raises and gives no record, whatever its tuplet
  elements.
\<close>

theorem tuplet_field:
  "(note_ok note_el \<longrightarrow>
      (\<exists>n. build_note note_el = Inr n
         \<and> map_of n ''tuplet'' =
             (if tuplet_start note_el then
                (case (read_count note_el ''actual-notes'',
                       read_count note_el ''normal-notes'') of
                   (Some a, Some b) \<Rightarrow> Some (JStr (a @ '':'' @ b))
                 | _ \<Rightarrow> None)
              else None)))
   \<and> (\<not> note_ok note_el \<longrightarrow> (\<exists>e. build_note note_el = Inl e))"
proof (intro conjI impI)
  assume "note_ok note_el"
  then obtain n where n: "build_note note_el = Inr n"
    using build_note_succeeds [of note_el] by blast
  from build_note_tuplet [OF n] n
  show "\<exists>n. build_note note_el = Inr n
         \<and> map_of n ''tuplet'' =
             (if tuplet_start note_el then
                (case (read_count note_el ''actual-notes'',
                       read_count note_el ''normal-notes'') of
                   (Some a, Some b) \<Rightarrow> Some (JStr (a @ '':'' @ b))
                 | _ \<Rightarrow> None)
              else None)"
    by blast
next
  assume "\<not> note_ok note_el"
  then show "\<exists>e. build_note note_el = Inl e" by (rule build_note_fails)
qed

theorem tuplet_field_witness:
  "(\<exists>n. build_note ex_triplet = Inr n \<and> map_of n ''tuplet'' = Some (JStr ''3:2''))
   \<and> (\<exists>n. build_note ex_start_only = Inr n \<and> map_of n ''tuplet'' = None)
   \<and> (\<exists>n. build_note ex_two_ties = Inr n \<and> map_of n ''tuplet'' = None)
   \<and> (\<exists>e. build_note ex_bad_voice = Inl e)
   \<and> tuplet_start ex_triplet \<and> tuplet_start ex_start_only \<and> \<not> tuplet_start ex_two_ties"
proof -
  have ok: "note_ok ex_triplet" "note_ok ex_start_only" "note_ok ex_two_ties"
    "\<not> note_ok ex_bad_voice"
    by code_simp+
  have t: "tuplet_start ex_triplet" "tuplet_start ex_start_only" "\<not> tuplet_start ex_two_ties"
    by code_simp+
  have c: "read_count ex_triplet ''actual-notes'' = Some ''3''"
    "read_count ex_triplet ''normal-notes'' = Some ''2''"
    "read_count ex_start_only ''actual-notes'' = Some ''3''"
    "read_count ex_start_only ''normal-notes'' = None"
    by code_simp+
  from tuplet_field [of ex_triplet] ok(1) t(1) c(1,2)
  have a: "\<exists>n. build_note ex_triplet = Inr n \<and> map_of n ''tuplet'' = Some (JStr ''3:2'')"
    by simp
  from tuplet_field [of ex_start_only] ok(2) t(2) c(3,4)
  have b: "\<exists>n. build_note ex_start_only = Inr n \<and> map_of n ''tuplet'' = None"
    by simp
  from tuplet_field [of ex_two_ties] ok(3) t(3)
  have d: "\<exists>n. build_note ex_two_ties = Inr n \<and> map_of n ''tuplet'' = None"
    by simp
  from tuplet_field [of ex_bad_voice] ok(4)
  have e: "\<exists>e. build_note ex_bad_voice = Inl e"
    by blast
  from a b d e t show ?thesis by blast
qed

theorem tuplet_counterexample:
  "tuplet_start ex_bad_voice
   \<and> read_count ex_bad_voice ''actual-notes'' = Some ''3''
   \<and> read_count ex_bad_voice ''normal-notes'' = Some ''2''
   \<and> build_note ex_bad_voice = Inl ValueError"
  by code_simp

text \<open>
  C8, as the code has it: the tie field of a note is the type attribute of the first tie
  child whose type attribute is there and is not empty; the ties after it are ignored,
  and without such a tie the field is absent. A tie with an empty type attribute is
  passed over.
\<close>

theorem tie_field:
  "build_note note_el = Inr n \<Longrightarrow>
     map_of n ''tie'' =
       (case typed_ties note_el of
          [] \<Rightarrow> None
        | t # _ \<Rightarrow> map_option JStr (elem_get t ''type''))"
  by (rule build_note_tie)

theorem tie_field_witness:
  "map_of [(''tie'', JStr ''start'')] ''tie'' = Some (JStr ''start'')
   \<and> typed_ties ex_two_ties =
       [Element ''tie'' [(''type'', ''start'')] None [],
        Element ''tie'' [(''type'', ''stop'')] None []]"
proof -
  have a: "build_note ex_two_ties = Inr [(''tie'', JStr ''start'')]"
    and b: "typed_ties ex_two_ties =
       [Element ''tie'' [(''type'', ''start'')] None [],
        Element ''tie'' [(''type'', ''stop'')] None []]"
    by code_simp+
  from tie_field [OF a] b show ?thesis by (simp add: elem_get_def)
qed

theorem tie_counterexample:
  "elem_get (hd (findall ex_blank_tie [Child ''tie''])) ''type'' = Some ''''
   \<and> build_note ex_blank_tie = Inr [(''tie'', JStr ''stop'')]"
  by code_simp

section \<open>The score record\<close>

text \<open>
  C10. Whenever the extractor produces a score, its keys are \<open>_schema\<close>, \<open>title\<close>,
  \<open>composer\<close>, \<open>arranger\<close> and \<open>measures\<close>, all five and in this order; the title is
  null when the source has neither a work title nor a movement title, the composer is
  null without a creator of type composer, the arranger without one of type arranger.
\<close>

theorem score_keys:
  "build_json root_el = Inr score \<Longrightarrow>
     map fst score = [''_schema'', ''title'', ''composer'', ''arranger'', ''measures'']
     \<and> (findall root_el [Child ''work'', Child ''work-title''] = []
          \<and> findall root_el [Child ''movement-title''] = []
        \<longrightarrow> map_of score ''title'' = Some JNull)
     \<and> (creators root_el ''composer'' = [] \<longrightarrow> map_of score ''composer'' = Some JNull)
     \<and> (creators root_el ''arranger'' = [] \<longrightarrow> map_of score ''arranger'' = Some JNull)"
proof -
  assume "build_json root_el = Inr score"
  then obtain ms where s: "score =
     [(''_schema'', JStr SCHEMA), (''title'', opt_str (score_title root_el)),
      (''composer'', (case creators root_el ''composer'' of
                        [] \<Rightarrow> JNull | e # es \<Rightarrow> opt_str (etext (last (e # es))))),
      (''arranger'', (case creators root_el ''arranger'' of
                        [] \<Rightarrow> JNull | e # es \<Rightarrow> opt_str (etext (last (e # es))))),
      (''measures'', JList ms)]"
    using build_json_shape by blast
  have "map fst score = [''_schema'', ''title'', ''composer'', ''arranger'', ''measures'']"
    by (simp add: s)
  moreover have "map_of score ''title'' = Some JNull"
    if "findall root_el [Child ''work'', Child ''work-title''] = []
        \<and> findall root_el [Child ''movement-title''] = []"
    using that score_title_absent [of root_el] by (simp add: s opt_str_def)
  moreover have "map_of score ''composer'' = Some JNull" if "creators root_el ''composer'' = []"
    using that by (simp add: s)
  moreover have "map_of score ''arranger'' = Some JNull" if "creators root_el ''arranger'' = []"
    using that by (simp add: s)
  ultimately show ?thesis by blast
qed

theorem score_keys_witness:
  "map fst (case build_json ex_untitled of Inl e \<Rightarrow> [] | Inr score \<Rightarrow> score)
     = [''_schema'', ''title'', ''composer'', ''arranger'', ''measures'']
   \<and> map_of (case build_json ex_untitled of Inl e \<Rightarrow> [] | Inr score \<Rightarrow> score) ''title''
       = Some JNull
   \<and> map_of (case build_json ex_score of Inl e \<Rightarrow> [] | Inr score \<Rightarrow> score) ''arranger''
       = Some JNull
   \<and> map_of (case build_json ex_score of Inl e \<Rightarrow> [] | Inr score \<Rightarrow> score) ''composer''
       = Some (JStr ''A'')"
proof -
  have a: "build_json ex_untitled =
      Inr [(''_schema'', JStr SCHEMA), (''title'', JNull), (''composer'', JNull),
           (''arranger'', JNull), (''measures'', JList [])]"
    and b: "build_json ex_score =
      Inr [(''_schema'', JStr SCHEMA), (''title'', JStr ''Etude''), (''composer'', JStr ''A''),
           (''arranger'', JNull), (''measures'', JList [JDict [(''number'', JInt 1)]])]"
    and c: "findall ex_untitled [Child ''work'', Child ''work-title''] = []"
      "findall ex_untitled [Child ''movement-title''] = []"
      "creators ex_score ''arranger'' = []"
    by code_simp+
  from score_keys [OF a] score_keys [OF b] c show ?thesis by (simp add: a b)
qed

section \<open>The pitch decoder on an alteration beyond the doubles\<close>

text \<open>
  C2. The claim has every alteration rendered, with no symbol when the rounded value is
  outside \<open>-2..2\<close>. The code renders as claimed whenever \<open>round\<close> returns (lemma
  \<open>pitch_name_render\<close>: the symbol of the mapping, none for an unparsable text), but an
  alteration that \<open>float\<close> reads as an infinity, such as \<open>1e400\<close>, makes \<open>round\<close> raise
  \<open>OverflowError\<close>, which the handler for \<open>ValueError\<close> does not catch: no string is
  rendered.
\<close>

theorem pitch_name_overflow: "pitch_name (Some ex_huge_alter) = Inl OverflowError"
proof -
  have "text_or ex_huge_alter [Child ''alter''] ''0'' = ''1e400''"
    and "py_strip ''1e400'' = ''1e400''"
    by code_simp+
  then show ?thesis
    by (simp add: pitch_name_render float_1e400 and_then_def)
qed

lemma pitch_name_examples:
  "pitch_name (Some (ex_pitch ''1.49'')) = Inr (Some ''C#5'')"
  "pitch_name (Some (ex_pitch ''1.0'')) = Inr (Some ''C#5'')"
  "pitch_name (Some (ex_pitch ''0.98'')) = Inr (Some ''C#5'')"
  "pitch_name (Some (ex_pitch ''-2'')) = Inr (Some ''Cbb5'')"
  "pitch_name (Some (ex_pitch ''3'')) = Inr (Some ''C5'')"
  "pitch_name (Some (ex_pitch ''sharp'')) = Inr (Some ''C5'')"
  "pitch_name (Some (ex_pitch ''inf'')) = Inl OverflowError"
  by code_simp+

section \<open>Namespace prefixes in the two passes\<close>

text \<open>
  C5, as the code has it: the bare tag name never contains a closing brace, it is what
  the stripping pass compares with its list of layout elements, and so stripping a tree
  and removing the prefixes from its tags can be done in either order. It is also what
  the extractor writes into its output: in every note record the articulation and
  ornament fields, and in every measure record the dynamics field, list the bare names of
  the elements found (the field is absent when none is found), names that are the same
  with and without the prefixes. The extractor's searches compare whole tags, prefix
  included: a qualified tree and its bare copy need not give the same score.
\<close>

theorem strip_ignores_namespace:
  "strip_document (unqualify t) = unqualify (strip_document t)
   \<and> CHR ''}'' \<notin> set (detag el)
   \<and> names_field (map unqualify els) = names_field els
   \<and> (note_ok note_el \<longrightarrow>
        (\<exists>n. build_note note_el = Inr n
           \<and> map_of n ''artic'' =
               names_field (findall note_el [Self, Descendant ''articulations'', Star])
           \<and> map_of n ''ornament'' =
               names_field (findall note_el [Self, Descendant ''ornaments'', Star])))
   \<and> (measure_ok m \<longrightarrow>
        (\<exists>r. build_measure m = Inr r
           \<and> map_of r ''dynamics'' = names_field (dynamics_marks m)))"
proof (intro conjI impI)
  show "strip_document (unqualify t) = unqualify (strip_document t)"
    by (rule strip_document_unqualify)
  show "CHR ''}'' \<notin> set (detag el)" by (rule detag_no_brace)
  show "names_field (map unqualify els) = names_field els" by (rule names_field_unqualify)
next
  assume "note_ok note_el"
  then obtain n where n: "build_note note_el = Inr n"
    using build_note_succeeds [of note_el] by blast
  from build_note_names [OF n] n
  show "\<exists>n. build_note note_el = Inr n
           \<and> map_of n ''artic'' =
               names_field (findall note_el [Self, Descendant ''articulations'', Star])
           \<and> map_of n ''ornament'' =
               names_field (findall note_el [Self, Descendant ''ornaments'', Star])"
    by blast
next
  assume "measure_ok m"
  then obtain r where r: "build_measure m = Inr r"
    using build_measure_ok [of m] by blast
  from build_measure_fields(12) [OF r] r
  show "\<exists>r. build_measure m = Inr r \<and> map_of r ''dynamics'' = names_field (dynamics_marks m)"
    by blast
qed

theorem strip_ignores_namespace_witness:
  "strip_document (unqualify ex_layout) =
     Element ''measure'' [(''number'', ''1'')] None [Element ''note'' [] None []]
   \<and> detag (Element ''{urn:x}print'' [] None []) = ''print''
   \<and> (\<exists>n. build_note ex_staccato = Inr n
        \<and> map_of n ''artic'' = Some (JList [JStr ''staccato'', JStr ''accent''])
        \<and> map_of n ''ornament'' = Some (JList [JStr ''trill-mark'']))
   \<and> (\<exists>r. build_measure ex_forte = Inr r
        \<and> map_of r ''dynamics'' = Some (JList [JStr ''f'']))"
proof -
  have a: "unqualify (strip_document ex_layout) =
      Element ''measure'' [(''number'', ''1'')] None [Element ''note'' [] None []]"
    and b: "detag (Element ''{urn:x}print'' [] None []) = ''print''"
    by code_simp+
  have ok: "note_ok ex_staccato" "measure_ok ex_forte"
    by code_simp+
  have f: "names_field (findall ex_staccato [Self, Descendant ''articulations'', Star]) =
      Some (JList [JStr ''staccato'', JStr ''accent''])"
    "names_field (findall ex_staccato [Self, Descendant ''ornaments'', Star]) =
      Some (JList [JStr ''trill-mark''])"
    "names_field (dynamics_marks ex_forte) = Some (JList [JStr ''f''])"
    by code_simp+
  from strip_ignores_namespace [of ex_layout _ _ ex_staccato ex_forte] a b ok f
  show ?thesis by simp
qed

theorem namespace_counterexample:
  "build_json ex_namespaced \<noteq> build_json (unqualify ex_namespaced)"
proof -
  have "build_json ex_namespaced =
      Inr [(''_schema'', JStr SCHEMA), (''title'', JNull), (''composer'', JNull),
           (''arranger'', JNull), (''measures'', JList [])]"
    and "build_json (unqualify ex_namespaced) =
      Inr [(''_schema'', JStr SCHEMA), (''title'', JNull), (''composer'', JNull),
           (''arranger'', JNull), (''measures'', JList [JDict [(''number'', JInt 1)]])]"
    by code_simp+
  then show ?thesis by simp
qed


end
